theory Spec2Isabelle
  imports Complex_Main "HOL-Library.Word"
begin

unbundle bit_operations_syntax

section \<open>Strings as Python sees them\<close>

text \<open>
  A Python text is a list of \<^typ>\<open>char\<close>, each character standing for the code point of
  its number: the model covers the texts whose code points are below 256. \<open>is_space\<close> is the
  whitespace class of \<^verbatim>\<open>str.strip()\<close> and \<^verbatim>\<open>str.split()\<close> on these code points, which has
  U+0085 and U+00A0 besides the ASCII ones. \<open>upper\<close> (and \<open>lower\<close> further down) change the
  ASCII letters only. Python also changes letters above U+007F, to letters above U+007F
  again or, for U+00DF, to \<open>SS\<close>; no comparison made here can tell the difference, since
  every text an upper-cased or lower-cased text is compared with consists of ASCII
  characters and none has \<open>SS\<close> in it.
\<close>

definition upper_char :: "char \<Rightarrow> char" where
  "upper_char c =
     (case map_of (zip ''abcdefghijklmnopqrstuvwxyz'' ''ABCDEFGHIJKLMNOPQRSTUVWXYZ'') c of
        Some u \<Rightarrow> u
      | None \<Rightarrow> c)"

definition upper :: "string \<Rightarrow> string" where
  "upper s = map upper_char s"

definition is_space :: "char \<Rightarrow> bool" where
  "is_space c =
     (c \<in> set [CHR 0x09, CHR 0x0A, CHR 0x0B, CHR 0x0C, CHR 0x0D,
               CHR 0x1C, CHR 0x1D, CHR 0x1E, CHR 0x1F, CHR '' '',
               CHR 0x85, CHR 0xA0])"

definition strip :: "string \<Rightarrow> string" where
  "strip s = rev (dropWhile is_space (rev (dropWhile is_space s)))"

text \<open>The position of a character in a table, counted from \<open>i\<close>.\<close>

fun index_in :: "string \<Rightarrow> char \<Rightarrow> nat \<Rightarrow> nat option" where
  "index_in [] c i = None"
| "index_in (x # xs) c i = (if x = c then Some i else index_in xs c (Suc i))"

text \<open>Raw bytes (a JPEG frame, the audio file) are lists of 8-bit words.\<close>

type_synonym bytes = "8 word list"

section \<open>Python floats and exceptions\<close>

text \<open>
  A Python float is an IEEE 754 double: a finite value (a real number here; the sign of zero
  is not kept), an infinity or a NaN. \<open>double_of_real\<close> rounds a real number to the nearest
  double, ties to even, and to an infinity from \<open>2^1024 - 2^970\<close> on: this is what the
  conversion of a decimal text, the conversion of an int and the float addition do with
  their exact result.
\<close>

datatype pyfloat = Finite real | PosInf | NegInf | NaN

text \<open>
  For \<open>x \<ge> 1\<close>, \<open>halvings x\<close> is the exponent \<open>e\<close> with \<open>2^e \<le> x < 2^(e+1)\<close>. For
  \<open>0 < x < 1\<close>, \<open>doublings x 0\<close> is the \<open>k\<close> with \<open>2^-k \<le> x < 2^-(k-1)\<close>, at most 1022
  (below that the doubles are subnormal and evenly spaced).
\<close>

function halvings :: "real \<Rightarrow> nat" where
  "halvings x = (if 2 \<le> x then Suc (halvings (x / 2)) else 0)"
  by pat_completeness auto
termination
proof (relation "measure (\<lambda>x. nat \<lfloor>x\<rfloor>)")
  show "wf (measure (\<lambda>x. nat \<lfloor>x\<rfloor>))"
    by simp
next
  fix x :: real
  assume a: "2 \<le> x"
  have "x / 2 \<le> x - 1"
    using a by simp
  then have "\<lfloor>x / 2\<rfloor> \<le> \<lfloor>x - 1\<rfloor>"
    by (rule floor_mono)
  moreover have "\<lfloor>x - 1\<rfloor> = \<lfloor>x\<rfloor> - 1"
    by simp
  moreover have "2 \<le> \<lfloor>x\<rfloor>"
    using a by (simp add: le_floor_iff)
  ultimately show "(x / 2, x) \<in> measure (\<lambda>x. nat \<lfloor>x\<rfloor>)"
    by simp
qed

declare halvings.simps [simp del]

function doublings :: "real \<Rightarrow> nat \<Rightarrow> nat" where
  "doublings x k = (if x < 1 \<and> k < 1022 then doublings (2 * x) (Suc k) else k)"
  by pat_completeness auto
termination
  by (relation "measure (\<lambda>(x, k). 1022 - k)") auto

declare doublings.simps [simp del]

text \<open>The distance between neighbouring doubles around \<open>x > 0\<close>.\<close>

definition quantum :: "real \<Rightarrow> real" where
  "quantum x =
     (if 1 \<le> x then 2 ^ halvings x / 2 ^ 52
      else 1 / (2 ^ doublings x 0 * 2 ^ 52))"

definition round_half_even :: "real \<Rightarrow> int" where
  "round_half_even y =
     (let f = \<lfloor>y\<rfloor> in
      if y - of_int f < 1 / 2 then f
      else if 1 / 2 < y - of_int f then f + 1
      else if even f then f else f + 1)"

definition double_of_real :: "real \<Rightarrow> pyfloat" where
  "double_of_real x =
     (if x = 0 then Finite 0
      else if 2 ^ 1024 - 2 ^ 970 \<le> x then PosInf
      else if x \<le> - (2 ^ 1024 - 2 ^ 970) then NegInf
      else if 0 < x then Finite (of_int (round_half_even (x / quantum x)) * quantum x)
      else Finite (- (of_int (round_half_even (- x / quantum (- x))) * quantum (- x))))"

text \<open>Float addition, the comparisons \<^verbatim>\<open><\<close> and \<^verbatim>\<open><=\<close>, and \<^verbatim>\<open>max(a, b)\<close> of two floats.\<close>

fun py_add :: "pyfloat \<Rightarrow> pyfloat \<Rightarrow> pyfloat" where
  "py_add (Finite a) (Finite b) = double_of_real (a + b)"
| "py_add NaN _ = NaN"
| "py_add _ NaN = NaN"
| "py_add PosInf NegInf = NaN"
| "py_add NegInf PosInf = NaN"
| "py_add PosInf _ = PosInf"
| "py_add _ PosInf = PosInf"
| "py_add NegInf _ = NegInf"
| "py_add _ NegInf = NegInf"

fun py_lt :: "pyfloat \<Rightarrow> pyfloat \<Rightarrow> bool" where
  "py_lt (Finite a) (Finite b) = (a < b)"
| "py_lt NaN _ = False"
| "py_lt _ NaN = False"
| "py_lt _ NegInf = False"
| "py_lt PosInf _ = False"
| "py_lt NegInf _ = True"
| "py_lt _ PosInf = True"

fun py_le :: "pyfloat \<Rightarrow> pyfloat \<Rightarrow> bool" where
  "py_le (Finite a) (Finite b) = (a \<le> b)"
| "py_le NaN _ = False"
| "py_le _ NaN = False"
| "py_le NegInf _ = True"
| "py_le _ PosInf = True"
| "py_le _ NegInf = False"
| "py_le PosInf _ = False"

definition py_max :: "pyfloat \<Rightarrow> pyfloat \<Rightarrow> pyfloat" where
  "py_max a b = (if py_lt a b then b else a)"

text \<open>
  The exceptions that matter here. NameError and UnboundLocalError carry the name that is
  not bound; \<open>OtherException\<close> stands for what a library call raises.
\<close>

datatype py_exception =
  NameError string | UnboundLocalError string | ValueError | OverflowError | OtherException

text \<open>
  \<^verbatim>\<open>int + float\<close>: the int is converted to a float first, which raises OverflowError when
  it is too large for a double.
\<close>

definition int_add_float :: "int \<Rightarrow> pyfloat \<Rightarrow> py_exception + pyfloat" where
  "int_add_float n f =
     (if 2 ^ 1024 - 2 ^ 970 \<le> \<bar>real_of_int n\<bar> then Inl OverflowError
      else Inr (py_add (double_of_real (real_of_int n)) f))"

section \<open>unity.py: the hub's module state\<close>

text \<open>
  The module globals of unity.py: \<^verbatim>\<open>latest_frame_bytes\<close> (None until the first frame),
  \<^verbatim>\<open>current_command\<close>, \<^verbatim>\<open>pending_audio_ready\<close>, \<^verbatim>\<open>current_transcript\<close> and
  \<^verbatim>\<open>transcript_expire_time\<close>. Each handler runs its critical section under one lock,
  so a handler is one atomic step on this record.
\<close>

record unity_state =
  latest_frame_bytes :: "bytes option"
  current_command :: string
  pending_audio_ready :: bool
  current_transcript :: string
  transcript_expire_time :: pyfloat

definition unity_init :: unity_state where
  "unity_init =
     \<lparr>latest_frame_bytes = None,
      current_command = ''NOT_MOVING'',
      pending_audio_ready = False,
      current_transcript = '''',
      transcript_expire_time = Finite 0\<rparr>"

subsection \<open>Audio hand-off: POST /send-audio and GET /audio\<close>

datatype send_audio_response = SendAudioOk | SendAudioNotFound404

datatype audio_response = AudioNoContent204 | AudioFile200 bytes | AudioReadFailed500

text \<open>
  \<open>send_audio exists s\<close>: \<open>exists\<close> is what \<^verbatim>\<open>os.path.exists(ASK_AUDIO_PATH)\<close> returns
  at this call.
\<close>

definition send_audio :: "bool \<Rightarrow> unity_state \<Rightarrow> send_audio_response \<times> unity_state" where
  "send_audio file_exists s =
     (if \<not> file_exists then (SendAudioNotFound404, s)
      else (SendAudioOk, s\<lparr>pending_audio_ready := True\<rparr>))"

text \<open>
  \<open>audio file s\<close>: \<open>file\<close> is what \<^verbatim>\<open>send_file(ASK_AUDIO_PATH)\<close> reads at this call,
  \<open>None\<close> when it raises OSError. The flag is cleared before the file is read.
\<close>

definition audio :: "bytes option \<Rightarrow> unity_state \<Rightarrow> audio_response \<times> unity_state" where
  "audio file s =
     (if \<not> pending_audio_ready s then (AudioNoContent204, s)
      else
        (case file of
           Some bytes \<Rightarrow> AudioFile200 bytes
         | None \<Rightarrow> AudioReadFailed500,
         s\<lparr>pending_audio_ready := False\<rparr>))"

text \<open>A batch of trigger calls, and a batch of polls with the responses they return.\<close>

fun send_audio_many :: "bool list \<Rightarrow> unity_state \<Rightarrow> unity_state" where
  "send_audio_many [] s = s"
| "send_audio_many (e # es) s = send_audio_many es (snd (send_audio e s))"

fun audio_many :: "bytes option list \<Rightarrow> unity_state \<Rightarrow> audio_response list \<times> unity_state" where
  "audio_many [] s = ([], s)"
| "audio_many (f # fs) s =
     (let (r, s') = audio f s; (rs, s'') = audio_many fs s' in (r # rs, s''))"

subsection \<open>Movement command: set_current_command_from_key and /command\<close>

text \<open>The dict \<^verbatim>\<open>mapping\<close> of \<^verbatim>\<open>set_current_command_from_key\<close>, in source order.\<close>

definition key_mapping :: "(string \<times> string) list" where
  "key_mapping =
     [(''W'', ''FORWARD''),
      (''S'', ''BACKWARD''),
      (''A'', ''LEFT''),
      (''D'', ''RIGHT''),
      (''X'', ''Not Moving''),
      (''P'', ''PHOTO'')]"

definition set_current_command_from_key :: "string \<Rightarrow> unity_state \<Rightarrow> unity_state" where
  "set_current_command_from_key cmd s =
     (case map_of key_mapping (upper cmd) of
        None \<Rightarrow> s
      | Some token \<Rightarrow> s\<lparr>current_command := token\<rparr>)"

datatype command_post_response = CommandOk | CommandInvalid400

text \<open>
  POST /command. \<open>field\<close> is \<^verbatim>\<open>str(data.get("command", ""))\<close>: the text of the body's
  \<^verbatim>\<open>command\<close> field, empty when the field is missing.
\<close>

definition command_post :: "string \<Rightarrow> unity_state \<Rightarrow> command_post_response \<times> unity_state" where
  "command_post field s =
     (let cmd = upper field in
      if cmd \<notin> set [''W'', ''A'', ''S'', ''D'', ''X''] then (CommandInvalid400, s)
      else (CommandOk, set_current_command_from_key cmd s))"

text \<open>GET /command: always a 200 plain-text response, \<^verbatim>\<open>current_command or "NOT_MOVING"\<close>.\<close>

definition command_get :: "unity_state \<Rightarrow> string" where
  "command_get s = (if current_command s = [] then ''NOT_MOVING'' else current_command s)"

text \<open>One line read by \<^verbatim>\<open>keyboard_loop\<close>.\<close>

definition keyboard_line :: "string \<Rightarrow> unity_state \<Rightarrow> unity_state" where
  "keyboard_line line s =
     (let cmd = upper (strip line) in
      if cmd \<in> set [''W'', ''A'', ''S'', ''D'', ''X''] then set_current_command_from_key cmd s
      else s)"

fun command_posts :: "string list \<Rightarrow> unity_state \<Rightarrow> unity_state" where
  "command_posts [] s = s"
| "command_posts (f # fs) s = command_posts fs (snd (command_post f s))"

text \<open>
  The tokens a write accepts, and the token stored for one: the two notions the statements
  about the write operation are phrased with.
\<close>

definition accepted_key :: "string \<Rightarrow> bool" where
  "accepted_key field = (upper field \<in> set [''W'', ''A'', ''S'', ''D'', ''X''])"

definition direction_of :: "string \<Rightarrow> string" where
  "direction_of field =
     (if upper field = ''W'' then ''FORWARD''
      else if upper field = ''A'' then ''LEFT''
      else if upper field = ''S'' then ''BACKWARD''
      else if upper field = ''D'' then ''RIGHT''
      else ''Not Moving'')"

text \<open>
  The command cell over every way the module changes it: a POST, a line of the keyboard
  loop, or a direct call of \<^verbatim>\<open>set_current_command_from_key\<close>.
\<close>

datatype command_event = Post string | Keyboard string | SetKey string

fun command_step :: "command_event \<Rightarrow> unity_state \<Rightarrow> unity_state" where
  "command_step (Post f) s = snd (command_post f s)"
| "command_step (Keyboard l) s = keyboard_line l s"
| "command_step (SetKey k) s = set_current_command_from_key k s"

fun command_run :: "command_event list \<Rightarrow> unity_state \<Rightarrow> unity_state" where
  "command_run [] s = s"
| "command_run (e # es) s = command_run es (command_step e s)"

subsection \<open>Frames: POST /send and GET /latest.jpg\<close>

text \<open>
  \<^verbatim>\<open>base64.b64decode(s)\<close> of the Python standard library, as \<^verbatim>\<open>receive_frame\<close> calls it
  (no \<^verbatim>\<open>validate\<close> argument): a text with a non-ASCII character raises ValueError; then
  \<^verbatim>\<open>binascii.a2b_base64\<close> runs in its non-strict mode, which skips every character
  outside the alphabet, stops at a completed pad sequence and raises \<^verbatim>\<open>binascii.Error\<close>
  when the data characters do not end on a quad.
\<close>

definition b64_alphabet :: string where
  "b64_alphabet = ''ABCDEFGHIJKLMNOPQRSTUVWXYZabcdefghijklmnopqrstuvwxyz0123456789+/''"

definition table_a2b_base64 :: "char \<Rightarrow> 8 word option" where
  "table_a2b_base64 c = map_option of_nat (index_in b64_alphabet c 0)"

datatype b64_error = NonAsciiText | InvalidDataLength | IncorrectPadding

fun a2b_base64 :: "string \<Rightarrow> nat \<Rightarrow> 8 word \<Rightarrow> nat \<Rightarrow> bytes \<Rightarrow> b64_error + bytes" where
  "a2b_base64 [] quad_pos leftchar pads bin_data =
     (if quad_pos \<noteq> 0 then
        (if quad_pos = 1 then Inl InvalidDataLength else Inl IncorrectPadding)
      else Inr bin_data)"
| "a2b_base64 (c # cs) quad_pos leftchar pads bin_data =
     (if c = CHR ''='' then
        (if 2 \<le> quad_pos \<and> 4 \<le> quad_pos + (pads + 1) then Inr bin_data
         else a2b_base64 cs quad_pos leftchar (if 2 \<le> quad_pos then pads + 1 else pads) bin_data)
      else
        (case table_a2b_base64 c of
           None \<Rightarrow> a2b_base64 cs quad_pos leftchar pads bin_data
         | Some this_ch \<Rightarrow>
             (if quad_pos = 0 then a2b_base64 cs 1 this_ch 0 bin_data
              else if quad_pos = 1 then
                a2b_base64 cs 2 (this_ch AND 0x0f) 0
                  (bin_data @ [push_bit 2 leftchar OR drop_bit 4 this_ch])
              else if quad_pos = 2 then
                a2b_base64 cs 3 (this_ch AND 0x03) 0
                  (bin_data @ [push_bit 4 leftchar OR drop_bit 2 this_ch])
              else
                a2b_base64 cs 0 0 0 (bin_data @ [push_bit 6 leftchar OR this_ch]))))"

definition b64decode :: "string \<Rightarrow> b64_error + bytes" where
  "b64decode s =
     (if list_ex (\<lambda>c. 128 \<le> (of_char c :: nat)) s then Inl NonAsciiText
      else a2b_base64 s 0 0 0 [])"

datatype frame_response = FrameOk | FrameMissing400 | FrameError500 b64_error

text \<open>
  POST /send. \<open>frame_b64\<close> is \<^verbatim>\<open>data.get("frame")\<close>: the text of the body's \<^verbatim>\<open>frame\<close>
  field, \<open>None\<close> when the field is missing.
\<close>

definition receive_frame :: "string option \<Rightarrow> unity_state \<Rightarrow> frame_response \<times> unity_state" where
  "receive_frame frame_b64 s =
     (case frame_b64 of
        None \<Rightarrow> (FrameMissing400, s)
      | Some f \<Rightarrow>
          if f = [] then (FrameMissing400, s)
          else
            (case b64decode f of
               Inl e \<Rightarrow> (FrameError500 e, s)
             | Inr frame_bytes \<Rightarrow> (FrameOk, s\<lparr>latest_frame_bytes := Some frame_bytes\<rparr>)))"

datatype latest_jpg_response = LatestNotFound404 | LatestJpeg200 bytes

definition latest_jpg :: "unity_state \<Rightarrow> latest_jpg_response" where
  "latest_jpg s =
     (case latest_frame_bytes s of
        None \<Rightarrow> LatestNotFound404
      | Some b \<Rightarrow> LatestJpeg200 b)"

text \<open>
  What every well-formed JPEG image satisfies: it begins with the start-of-image marker
  FF D8. The hub has no check of this kind; the predicate only serves to say so.
\<close>

definition jpeg_soi :: "bytes \<Rightarrow> bool" where
  "jpeg_soi b = (take 2 b = [0xFF, 0xD8])"

subsection \<open>Transcript: POST /transcript and GET /transcript/latest\<close>

text \<open>\<^verbatim>\<open>str.split(maxsplit=1)\<close>: at most two parts, separated by the first run of whitespace.\<close>

definition split_maxsplit1 :: "string \<Rightarrow> string list" where
  "split_maxsplit1 s =
     (let s' = dropWhile is_space s in
      if s' = [] then []
      else
        (let a = takeWhile (\<lambda>c. \<not> is_space c) s';
             r = dropWhile is_space (dropWhile (\<lambda>c. \<not> is_space c) s')
         in if r = [] then [a] else [a, r]))"

datatype transcript_response = TranscriptOk | TranscriptEmptyBody400 | TranscriptIndexError500

text \<open>
  POST /transcript at clock reading \<open>now\<close> (\<^verbatim>\<open>time.time()\<close>) with the request body
  \<open>body\<close>. \<open>float_of\<close> is Python's \<^verbatim>\<open>float()\<close> on the duration token: \<open>Some d\<close> for the float
  it denotes (which may be an infinity or a NaN), \<open>None\<close> where it raises ValueError.
\<close>

definition receive_transcript ::
  "(string \<Rightarrow> pyfloat option) \<Rightarrow> real \<Rightarrow> string \<Rightarrow> unity_state \<Rightarrow> transcript_response \<times> unity_state" where
  "receive_transcript float_of now body s =
     (let raw = strip body in
      if raw = [] then (TranscriptEmptyBody400, s)
      else
        (case (case split_maxsplit1 raw of
                 [] \<Rightarrow> None
               | [p0] \<Rightarrow> Some (''0'', p0)
               | p0 # p1 # _ \<Rightarrow> Some (p0, p1)) of
           None \<Rightarrow> (TranscriptIndexError500, s)
         | Some (duration_str, text) \<Rightarrow>
             (let duration = (case float_of duration_str of Some d \<Rightarrow> d | None \<Rightarrow> Finite 0);
                  display_seconds = py_add (py_max (Finite 0) duration) (Finite 5);
                  expires_at = py_add (Finite now) display_seconds
              in (TranscriptOk,
                  s\<lparr>current_transcript := text, transcript_expire_time := expires_at\<rparr>))))"

text \<open>GET /transcript/latest at clock reading \<open>now\<close>: the text of the JSON answer.\<close>

definition latest_transcript :: "real \<Rightarrow> unity_state \<Rightarrow> string" where
  "latest_transcript now s =
     (if current_transcript s = [] \<or> py_le (transcript_expire_time s) (Finite now) then []
      else current_transcript s)"

text \<open>
  The duration and the text a body stands for, as the handler reads them, and the expiry
  \<^verbatim>\<open>now + (max(0.0, duration) + 5.0)\<close> of a publish at \<open>now\<close> with that duration.
\<close>

definition body_duration :: "(string \<Rightarrow> pyfloat option) \<Rightarrow> string \<Rightarrow> pyfloat" where
  "body_duration float_of body =
     (case split_maxsplit1 (strip body) of
        [a, b] \<Rightarrow> (case float_of a of Some d \<Rightarrow> d | None \<Rightarrow> Finite 0)
      | _ \<Rightarrow> Finite 0)"

definition body_text :: "string \<Rightarrow> string" where
  "body_text body =
     (case split_maxsplit1 (strip body) of
        [a, b] \<Rightarrow> b
      | [a] \<Rightarrow> a
      | _ \<Rightarrow> [])"

definition expiry :: "real \<Rightarrow> pyfloat \<Rightarrow> pyfloat" where
  "expiry now duration = py_add (Finite now) (py_add (py_max (Finite 0) duration) (Finite 5))"

text \<open>\<^verbatim>\<open>float()\<close> on the duration tokens the examples below use.\<close>

definition float_of_example :: "string \<Rightarrow> pyfloat option" where
  "float_of_example =
     map_of [(''0'', Finite 0), (''3'', Finite 3), (''10'', Finite 10),
             (''inf'', PosInf), (''nan'', NaN)]"

section \<open>lyrics.py: parsing LRC lines\<close>

text \<open>
  \<^verbatim>\<open>int()\<close> of a run of decimal digits, which raises ValueError for more than 4300
  digits (the default limit of CPython 3.11 and later), and \<^verbatim>\<open>float()\<close> of a text \<open>ss.cc\<close>
  of digits: the double nearest to the number it denotes, or an infinity.
\<close>

definition is_digit :: "char \<Rightarrow> bool" where
  "is_digit c = (c \<in> set ''0123456789'')"

definition digit_value :: "char \<Rightarrow> nat" where
  "digit_value c = (case index_in ''0123456789'' c 0 of Some d \<Rightarrow> d | None \<Rightarrow> 0)"

definition nat_of_digits :: "string \<Rightarrow> nat" where
  "nat_of_digits s = foldl (\<lambda>acc c. acc * 10 + digit_value c) 0 s"

definition py_int :: "string \<Rightarrow> py_exception + int" where
  "py_int s = (if 4300 < length s then Inl ValueError else Inr (int (nat_of_digits s)))"

definition float_of_decimal :: "string \<Rightarrow> string \<Rightarrow> pyfloat" where
  "float_of_decimal ip fp =
     double_of_real (real (nat_of_digits ip) + real (nat_of_digits fp) / 10 ^ length fp)"

text \<open>\<^verbatim>\<open>s.split('\n')\<close>: the pieces between line feeds; one more piece than line feeds.\<close>

fun split_newline :: "string \<Rightarrow> string list" where
  "split_newline [] = [[]]"
| "split_newline (c # cs) =
     (if c = CHR 0x0A then [] # split_newline cs
      else (case split_newline cs of
              [] \<Rightarrow> [[c]]
            | l # ls \<Rightarrow> (c # l) # ls))"

text \<open>
  \<^verbatim>\<open>re.match(r'\[(\d+):(\d+\.\d+)\](.*)', line)\<close>: the groups, with group 2 given by its
  two digit runs. Each \<^verbatim>\<open>\d+\<close> is followed by a character that is no digit, so the greedy
  match takes the whole run of digits and backtracking never finds another match.
\<close>

definition lrc_match :: "string \<Rightarrow> (string \<times> string \<times> string \<times> string) option" where
  "lrc_match line =
     (case line of
        [] \<Rightarrow> None
      | c0 # r0 \<Rightarrow>
          if c0 \<noteq> CHR ''['' \<or> takeWhile is_digit r0 = [] then None
          else
            (case dropWhile is_digit r0 of
               [] \<Rightarrow> None
             | c1 # r1 \<Rightarrow>
                 if c1 \<noteq> CHR '':'' \<or> takeWhile is_digit r1 = [] then None
                 else
                   (case dropWhile is_digit r1 of
                      [] \<Rightarrow> None
                    | c2 # r2 \<Rightarrow>
                        if c2 \<noteq> CHR ''.'' \<or> takeWhile is_digit r2 = [] then None
                        else
                          (case dropWhile is_digit r2 of
                             [] \<Rightarrow> None
                           | c3 # r3 \<Rightarrow>
                               if c3 \<noteq> CHR '']'' then None
                               else Some (takeWhile is_digit r0, takeWhile is_digit r1,
                                          takeWhile is_digit r2, r3)))))"

text \<open>
  The loop over the lines, and the function itself; \<open>None\<close> is Python's None. An exception
  of a conversion leaves the function at the first line that raises it.
\<close>

fun parse_lines :: "string list \<Rightarrow> py_exception + (pyfloat \<times> string) list" where
  "parse_lines [] = Inr []"
| "parse_lines (line # rest) =
     (case lrc_match line of
        None \<Rightarrow> parse_lines rest
      | Some (g1, g2i, g2f, g3) \<Rightarrow>
          (case py_int g1 of
             Inl e \<Rightarrow> Inl e
           | Inr minutes \<Rightarrow>
               (let seconds = float_of_decimal g2i g2f;
                    text = strip g3
                in case int_add_float (minutes * 60) seconds of
                     Inl e \<Rightarrow> Inl e
                   | Inr total_seconds \<Rightarrow>
                       (case parse_lines rest of
                          Inl e \<Rightarrow> Inl e
                        | Inr lines \<Rightarrow> Inr ((total_seconds, text) # lines)))))"

definition parse_lrc_timestamps :: "string option \<Rightarrow> py_exception + (pyfloat \<times> string) list" where
  "parse_lrc_timestamps synced_lyrics =
     (case synced_lyrics of
        None \<Rightarrow> Inr []
      | Some s \<Rightarrow> if s = [] then Inr [] else parse_lines (split_newline s))"

text \<open>
  The notions of the statements about the parser. The timestamp-markup form
  \<open>[mm:ss.cc]text\<close> in words: an opening bracket, digits, a colon, digits, a dot, digits, a
  closing bracket, then the text. A minutes field converts when it has at most 4300 digits
  and sixty times its number is below the range of the doubles. The entry of a line is
  the pair of minutes * 60 + seconds, in float arithmetic, and the stripped text.
\<close>

definition digits :: "string \<Rightarrow> bool" where
  "digits s = (s \<noteq> [] \<and> list_all is_digit s)"

definition lrc_form :: "string \<Rightarrow> string \<Rightarrow> string \<Rightarrow> string \<Rightarrow> string \<Rightarrow> bool" where
  "lrc_form line mm ss cc text =
     (line = ''['' @ mm @ '':'' @ ss @ ''.'' @ cc @ '']'' @ text
      \<and> digits mm \<and> digits ss \<and> digits cc)"

definition minutes_convert :: "string \<Rightarrow> bool" where
  "minutes_convert mm =
     (length mm \<le> 4300 \<and> real (nat_of_digits mm * 60) < 2 ^ 1024 - 2 ^ 970)"

definition lrc_seconds :: "string \<Rightarrow> string \<Rightarrow> string \<Rightarrow> pyfloat" where
  "lrc_seconds mm ss cc =
     py_add (double_of_real (real (nat_of_digits mm * 60))) (float_of_decimal ss cc)"

definition lrc_entry :: "string \<Rightarrow> pyfloat \<times> string" where
  "lrc_entry line =
     (case lrc_match line of
        None \<Rightarrow> (NaN, [])
      | Some (mm, ss, cc, text) \<Rightarrow> (lrc_seconds mm ss cc, strip text))"

section \<open>rpi.py: the agent\<close>

subsection \<open>The command forwarding loop\<close>

text \<open>
  What the loop works on: its local \<^verbatim>\<open>last_cmd\<close>, the module globals \<^verbatim>\<open>ser\<close> (only
  whether it is None matters) and \<^verbatim>\<open>last_frame_jpeg\<close>, and the two effects it has:
  \<open>serial_log\<close> lists every \<^verbatim>\<open>ser.write\<close> call with the byte and whether the call
  succeeded, \<open>photo_files\<close> lists the files written by the PHOTO handler.
\<close>

record rpi_state =
  last_cmd :: "string option"
  ser_open :: bool
  last_frame_jpeg :: "bytes option"
  serial_log :: "(char \<times> bool) list"
  photo_files :: "(string \<times> bytes) list"

text \<open>
  What one pass of the loop meets outside: the answer to the GET on the command endpoint
  (\<open>RequestFailed\<close> is a \<^verbatim>\<open>requests.RequestException\<close>), how many attempts to open the
  serial port fail before it opens, whether \<^verbatim>\<open>ser.write\<close> succeeds, the text
  \<^verbatim>\<open>time.strftime\<close> returns and whether writing the photo file succeeds.
\<close>

datatype poll_result = RequestFailed | Response nat string

record poll_io =
  response :: poll_result
  serial_open_failures :: nat
  serial_write_ok :: bool
  strftime :: string
  file_write_ok :: bool

text \<open>
  \<^verbatim>\<open>init_serial\<close>: retry until the port opens. The port opens after \<open>failures\<close> failed
  attempts; a port that never opens keeps the loop in here for ever and has no pass to
  describe.
\<close>

fun init_serial :: "nat \<Rightarrow> rpi_state \<Rightarrow> rpi_state" where
  "init_serial 0 st = (if ser_open st then st else st\<lparr>ser_open := True\<rparr>)"
| "init_serial (Suc failures) st = (if ser_open st then st else init_serial failures st)"

definition send_command_to_arduino :: "string \<Rightarrow> poll_io \<Rightarrow> rpi_state \<Rightarrow> rpi_state" where
  "send_command_to_arduino cmd io st =
     (case cmd of
        [] \<Rightarrow> st
      | c # _ \<Rightarrow>
          (let st1 = (if \<not> ser_open st then init_serial (serial_open_failures io) st else st) in
           if serial_write_ok io then st1\<lparr>serial_log := serial_log st1 @ [(c, True)]\<rparr>
           else st1\<lparr>serial_log := serial_log st1 @ [(c, False)], ser_open := False\<rparr>))"

text \<open>The dict \<^verbatim>\<open>dirs\<close>, in source order.\<close>

definition dirs :: "(string \<times> string) list" where
  "dirs =
     [(''FORWARD'', ''W''),
      (''BACKWARD'', ''S''),
      (''LEFT'', ''A''),
      (''RIGHT'', ''D''),
      (''NOT'', ''X''),
      (''STOP'', ''X''),
      (''NOTMOVING'', ''X''),
      (''NOT_MOVING'', ''X''),
      (''NOT MOVING'', ''X'')]"

text \<open>\<^verbatim>\<open>raw_text.split()[0].upper() if raw_text else ""\<close> for \<^verbatim>\<open>raw_text = resp.text.strip()\<close>.\<close>

definition token_of :: "string \<Rightarrow> string" where
  "token_of text =
     (let raw_text = strip text in
      if raw_text = [] then []
      else upper (takeWhile (\<lambda>c. \<not> is_space c) (dropWhile is_space raw_text)))"

text \<open>The PHOTO branch: save the last camera frame, if there is one.\<close>

definition save_photo :: "poll_io \<Rightarrow> rpi_state \<Rightarrow> rpi_state" where
  "save_photo io st =
     (case last_frame_jpeg st of
        None \<Rightarrow> st
      | Some jpeg_data \<Rightarrow>
          if file_write_ok io
          then st\<lparr>photo_files := photo_files st @ [(strftime io @ ''.jpg'', jpeg_data)]\<rparr>
          else st)"

text \<open>One pass of the \<^verbatim>\<open>while True\<close> loop of \<^verbatim>\<open>command_poll_loop\<close>.\<close>

definition command_poll_pass :: "poll_io \<Rightarrow> rpi_state \<Rightarrow> rpi_state" where
  "command_poll_pass io st =
     (case response io of
        RequestFailed \<Rightarrow> st
      | Response status_code text \<Rightarrow>
          if status_code \<noteq> 200 then st
          else
            (let token = token_of text in
             if token = ''PHOTO'' then save_photo io st
             else
               (case map_of dirs token of
                  None \<Rightarrow> st
                | Some mapped_cmd \<Rightarrow>
                    if Some mapped_cmd \<noteq> last_cmd st
                    then (send_command_to_arduino mapped_cmd io st)\<lparr>last_cmd := Some mapped_cmd\<rparr>
                    else st)))"

text \<open>
  The agent's events in the order they happen: a pass of the command loop, or the camera
  loop storing a frame in \<^verbatim>\<open>last_frame_jpeg\<close>.
\<close>

datatype agent_event = CommandPoll poll_io | CameraFrame bytes

fun agent_step :: "agent_event \<Rightarrow> rpi_state \<Rightarrow> rpi_state" where
  "agent_step (CommandPoll io) st = command_poll_pass io st"
| "agent_step (CameraFrame jpeg_bytes) st = st\<lparr>last_frame_jpeg := Some jpeg_bytes\<rparr>"

fun agent_run :: "agent_event list \<Rightarrow> rpi_state \<Rightarrow> rpi_state" where
  "agent_run [] st = st"
| "agent_run (e # es) st = agent_run es (agent_step e st)"

text \<open>\<^verbatim>\<open>command_poll_loop\<close> starts with \<^verbatim>\<open>last_cmd = None\<close>.\<close>

definition command_poll_loop :: "agent_event list \<Rightarrow> rpi_state \<Rightarrow> rpi_state" where
  "command_poll_loop es st = agent_run es (st\<lparr>last_cmd := None\<rparr>)"

definition rpi_init :: rpi_state where
  "rpi_init =
     \<lparr>last_cmd = None, ser_open = True, last_frame_jpeg = None,
      serial_log = [], photo_files = []\<rparr>"

text \<open>
  The notions the statements about the loop use: the value a pass polled (if it got an
  answer with status 200), the actuator command the loop maps an event to (if any), whether
  an event is a PHOTO poll, and a pass that polls the text \<open>t\<close> with the serial port and
  the disk working.
\<close>

definition polled_value :: "agent_event \<Rightarrow> string option" where
  "polled_value e =
     (case e of
        CommandPoll io \<Rightarrow>
          (case response io of
             Response status_code text \<Rightarrow> if status_code = 200 then Some text else None
           | RequestFailed \<Rightarrow> None)
      | CameraFrame _ \<Rightarrow> None)"

definition movement :: "agent_event \<Rightarrow> string option" where
  "movement e =
     (case polled_value e of
        None \<Rightarrow> None
      | Some text \<Rightarrow> if token_of text = ''PHOTO'' then None else map_of dirs (token_of text))"

definition is_photo :: "agent_event \<Rightarrow> bool" where
  "is_photo e = (case polled_value e of None \<Rightarrow> False | Some text \<Rightarrow> token_of text = ''PHOTO'')"

definition polled :: "string \<Rightarrow> agent_event" where
  "polled t =
     CommandPoll \<lparr>response = Response 200 t, serial_open_failures = 0, serial_write_ok = True,
                  strftime = ''20250101_120000'', file_write_ok = True\<rparr>"

text \<open>
  The bytes of the \<^verbatim>\<open>ser.write\<close> calls, in order, and the commands a debouncer that
  last forwarded \<open>l\<close> lets through.
\<close>

fun debounce :: "string option \<Rightarrow> string list \<Rightarrow> string list" where
  "debounce l [] = []"
| "debounce l (c # cs) = (if Some c = l then debounce l cs else c # debounce (Some c) cs)"

definition actuations :: "rpi_state \<Rightarrow> string" where
  "actuations st = map fst (serial_log st)"

subsection \<open>The audio pipeline: transcripts, music and lyrics\<close>

text \<open>\<^verbatim>\<open>str.lower()\<close> and the substring test \<^verbatim>\<open>keyword in text\<close>.\<close>

definition lower_char :: "char \<Rightarrow> char" where
  "lower_char c =
     (case map_of (zip ''ABCDEFGHIJKLMNOPQRSTUVWXYZ'' ''abcdefghijklmnopqrstuvwxyz'') c of
        Some l \<Rightarrow> l
      | None \<Rightarrow> c)"

definition lower :: "string \<Rightarrow> string" where
  "lower s = map lower_char s"

fun contains :: "string \<Rightarrow> string \<Rightarrow> bool" where
  "contains keyword [] = (keyword = [])"
| "contains keyword (c # cs) = (take (length keyword) (c # cs) = keyword \<or> contains keyword cs)"

text \<open>
  The names rpi.py binds at module level (imports, constants, functions). A name that a
  function reads without assigning it is looked up here (and then in the builtins, which
  have none of the names below and no \<^verbatim>\<open>song_name\<close>).
\<close>

definition rpi_module_names :: "string list" where
  "rpi_module_names =
     [''base64'', ''os'', ''threading'', ''time'', ''cv2'', ''OpenAI'', ''requests'', ''serial'',
      ''chatgpt'', ''lyrics'', ''spotify'',
      ''UNITY_HOST'', ''UNITY_PORT'', ''UNITY_FRAME_ENDPOINT'', ''AUDIO_ENDPOINT'',
      ''TRANSCRIPT_ENDPOINT'', ''REMOTE_COMMAND_ENDPOINT'', ''SERIAL_PORT'', ''BAUD_RATE'',
      ''COMMAND_POLL_INTERVAL'', ''ser'', ''OPENAI_API_KEY'', ''openai_client'',
      ''AUDIO_POLL_INTERVAL'', ''last_frame_jpeg'', ''last_frame_lock'',
      ''get_openai_client'', ''send_transcript_to_server'', ''handle_chatgpt_tts_flow'',
      ''handle_music_spotify_flow'', ''process_audio_file'', ''audio_poll_loop'',
      ''init_serial'', ''send_command_to_arduino'', ''command_poll_loop'', ''camera_loop'',
      ''main'']"

text \<open>
  What \<^verbatim>\<open>spotify.play_song\<close> meets. Only an exception of the search or of the device
  listing leaves \<^verbatim>\<open>play_song\<close>; no search result and no active device make it return
  early, and an exception of \<^verbatim>\<open>sp.start_playback\<close> is caught inside it.
\<close>

datatype spotify_outcome =
  SpotifyRaises | NoSearchResults | NoActiveDevice | StartPlaybackFails | PlaybackStarted

text \<open>
  What one run of the pipeline meets outside: the results of the calls to the inference
  service (\<open>None\<close> where the call raises), the \<^verbatim>\<open>syncedLyrics\<close> field of the lyrics
  search (\<open>None\<close> where the search raises, finds nothing or has no such field), what
  \<^verbatim>\<open>play_song\<close> meets and how long it takes, how long the n-th POST to the transcript
  endpoint takes, and the text of a module global.
\<close>

record pipeline_env =
  transcribe_audio :: "string option"
  chat_with_gpt :: "string option"
  text_to_speech_ok :: bool
  get_audio_duration :: "string option"
  synced_lyrics :: "string option"
  spotify :: spotify_outcome
  play_seconds :: real
  post_seconds :: "nat \<Rightarrow> real"
  global_text :: "string \<Rightarrow> string"

text \<open>
  The agent's clock (\<^verbatim>\<open>time.time()\<close>, a real number here), the POSTs made to the
  transcript endpoint, each with the clock reading at the call and its body, and the clock
  reading at which \<^verbatim>\<open>play_song\<close> returned with playback started.
\<close>

record agent_world =
  clock :: real
  posts :: "(real \<times> string) list"
  playback_started_at :: "real option"

text \<open>
  \<^verbatim>\<open>send_transcript_to_server\<close>: one POST of the text; a failure of the request is logged
  and otherwise ignored, the extra keyword arguments are not sent.
\<close>

definition send_transcript_to_server :: "string \<Rightarrow> pipeline_env \<Rightarrow> agent_world \<Rightarrow> agent_world" where
  "send_transcript_to_server body env w =
     w\<lparr>posts := posts w @ [(clock w, body)],
       clock := clock w + post_seconds env (length (posts w))\<rparr>"

definition play_song :: "pipeline_env \<Rightarrow> agent_world \<Rightarrow> (py_exception + unit) \<times> agent_world" where
  "play_song env w =
     (let w1 = w\<lparr>clock := clock w + play_seconds env\<rparr> in
      case spotify env of
        SpotifyRaises \<Rightarrow> (Inl OtherException, w1)
      | NoSearchResults \<Rightarrow> (Inr (), w1)
      | NoActiveDevice \<Rightarrow> (Inr (), w1)
      | StartPlaybackFails \<Rightarrow> (Inr (), w1)
      | PlaybackStarted \<Rightarrow> (Inr (), w1\<lparr>playback_started_at := Some (clock w1)\<rparr>))"

text \<open>
  \<^verbatim>\<open>while (time.time() - start_time) < timestamp: time.sleep(0.01)\<close>, from the clock reading
  \<open>now\<close>; a sleep lasts the hundredth of a second asked for. The result is the clock
  reading at which the loop ends.
\<close>

function wait_until :: "real \<Rightarrow> real \<Rightarrow> real \<Rightarrow> real" where
  "wait_until start_time timestamp now =
     (if now - start_time < timestamp then wait_until start_time timestamp (now + 1 / 100)
      else now)"
  by pat_completeness auto
termination
proof (relation "measure (\<lambda>(start_time, timestamp, now). nat \<lceil>(timestamp - (now - start_time)) * 100\<rceil>)")
  show "wf (measure (\<lambda>(start_time, timestamp, now). nat \<lceil>(timestamp - (now - start_time)) * 100\<rceil>))"
    by simp
next
  fix start_time timestamp now :: real
  assume a: "now - start_time < timestamp"
  have "\<lceil>(timestamp - (now + 1 / 100 - start_time)) * 100\<rceil>
      = \<lceil>(timestamp - (now - start_time)) * 100 - 1\<rceil>"
    by (simp add: algebra_simps)
  also have "\<dots> = \<lceil>(timestamp - (now - start_time)) * 100\<rceil> - 1"
    by simp
  finally have e: "\<lceil>(timestamp - (now + 1 / 100 - start_time)) * 100\<rceil>
      = \<lceil>(timestamp - (now - start_time)) * 100\<rceil> - 1" .
  have "0 < (timestamp - (now - start_time)) * 100"
    using a by simp
  then have "0 < \<lceil>(timestamp - (now - start_time)) * 100\<rceil>"
    by simp
  then show "((start_time, timestamp, now + 1 / 100), (start_time, timestamp, now))
      \<in> measure (\<lambda>(start_time, timestamp, now). nat \<lceil>(timestamp - (now - start_time)) * 100\<rceil>)"
    using e by simp
qed

declare wait_until.simps [simp del]

text \<open>
  The same loop for a timestamp that is a float. Against an infinite timestamp the test is
  always true and the loop never ends: \<open>None\<close>. Against a NaN it is false at once.
\<close>

definition wait_for :: "real \<Rightarrow> pyfloat \<Rightarrow> real \<Rightarrow> real option" where
  "wait_for start_time timestamp now =
     (case timestamp of
        Finite t \<Rightarrow> Some (wait_until start_time t now)
      | PosInf \<Rightarrow> None
      | NegInf \<Rightarrow> Some now
      | NaN \<Rightarrow> Some now)"

text \<open>
  How a call ends: it returns, it raises, or it never returns.
\<close>

datatype 'a outcome = Returns 'a | Raises py_exception | NeverReturns

text \<open>
  The \<^verbatim>\<open>for timestamp, text in lines\<close> loop of the music flow; \<open>None\<close> when a wait never
  ends.
\<close>

fun stream_lines ::
  "real \<Rightarrow> (pyfloat \<times> string) list \<Rightarrow> pipeline_env \<Rightarrow> agent_world \<Rightarrow> agent_world option" where
  "stream_lines start_time [] env w = Some w"
| "stream_lines start_time ((timestamp, text) # rest) env w =
     (case wait_for start_time timestamp (clock w) of
        None \<Rightarrow> None
      | Some t \<Rightarrow>
          (let w1 = w\<lparr>clock := t\<rparr>;
               w2 = send_transcript_to_server (''10 '' @ text) env w1
           in stream_lines start_time rest env w2))"

text \<open>
  \<^verbatim>\<open>handle_music_spotify_flow\<close>. The call of \<^verbatim>\<open>parse_lrc_timestamps\<close> is in no
  \<^verbatim>\<open>try\<close>, so what it raises leaves the function.
\<close>

definition handle_music_spotify_flow :: "pipeline_env \<Rightarrow> agent_world \<Rightarrow> agent_world outcome" where
  "handle_music_spotify_flow env w =
     (case chat_with_gpt env of
        None \<Rightarrow> Returns (send_transcript_to_server ''5 Error parsing music command'' env w)
      | Some reply \<Rightarrow>
          if reply = [] then Returns (send_transcript_to_server ''5 No Song Name found'' env w)
          else
            (let song_name = strip reply in
             if synced_lyrics env = None \<or> synced_lyrics env = Some []
             then Returns (send_transcript_to_server
                    (''5 No synced lyrics available for '' @ song_name) env w)
             else
               (case parse_lrc_timestamps (synced_lyrics env) of
                  Inl e \<Rightarrow> Raises e
                | Inr lines \<Rightarrow>
                    if lines = []
                    then Returns (send_transcript_to_server
                           (''5 Could not parse synced lyrics for '' @ song_name) env w)
                    else
                      (let start_time = clock w in
                       case play_song env w of
                         (Inl e, w1) \<Rightarrow>
                           Returns (send_transcript_to_server
                             ''5 Error starting Spotify playback'' env w1)
                       | (Inr _, w1) \<Rightarrow>
                           (case stream_lines start_time lines env w1 of
                              None \<Rightarrow> NeverReturns
                            | Some w2 \<Rightarrow> Returns w2)))))"

text \<open>
  \<^verbatim>\<open>handle_chatgpt_tts_flow\<close>. \<^verbatim>\<open>audio_duration\<close> is bound only when both
  \<^verbatim>\<open>text_to_speech\<close> and \<^verbatim>\<open>get_audio_duration\<close> return; \<^verbatim>\<open>play_audio\<close> catches its own
  exceptions. \<open>get_audio_duration\<close> of the environment is \<^verbatim>\<open>str(audio_duration)\<close>.
\<close>

definition handle_chatgpt_tts_flow :: "pipeline_env \<Rightarrow> agent_world \<Rightarrow> py_exception + agent_world" where
  "handle_chatgpt_tts_flow env w =
     (case chat_with_gpt env of
        None \<Rightarrow> Inr w
      | Some gpt_response \<Rightarrow>
          (let audio_duration =
                 (if text_to_speech_ok env then get_audio_duration env else None)
           in case audio_duration of
                None \<Rightarrow> Inl (UnboundLocalError ''audio_duration'')
              | Some d \<Rightarrow> Inr (send_transcript_to_server (d @ '' '' @ gpt_response) env w)))"

definition process_audio_file :: "pipeline_env \<Rightarrow> agent_world \<Rightarrow> agent_world outcome" where
  "process_audio_file env w =
     (case transcribe_audio env of
        None \<Rightarrow> Returns w
      | Some transcribed_text \<Rightarrow>
          if transcribed_text = [] then Returns w
          else
            (let lower_text = lower transcribed_text in
             if list_ex (\<lambda>keyword. contains keyword lower_text) [''music'', ''spotify'', ''song'']
             then handle_music_spotify_flow env w
             else
               (case handle_chatgpt_tts_flow env w of
                  Inl e \<Rightarrow> Raises e
                | Inr w1 \<Rightarrow>
                    if ''song_name'' \<notin> set rpi_module_names then Raises (NameError ''song_name'')
                    else Returns (send_transcript_to_server
                                    (''5 No synced lyrics available for '' @ global_text env ''song_name'')
                                    env w1))))"

text \<open>The body posted for a lyric line, and an environment and a world for examples.\<close>

definition lyric_body :: "pyfloat \<times> string \<Rightarrow> string" where
  "lyric_body l = ''10 '' @ snd l"

definition env_example :: pipeline_env where
  "env_example =
     \<lparr>transcribe_audio = Some ''play a song'',
      chat_with_gpt = Some ''Imagine'',
      text_to_speech_ok = True,
      get_audio_duration = Some ''2.5'',
      synced_lyrics = Some ''[00:01.00]a'',
      spotify = PlaybackStarted,
      play_seconds = 3,
      post_seconds = (\<lambda>n. 1 / 10),
      global_text = (\<lambda>n. [])\<rparr>"

definition world_init :: agent_world where
  "world_init = \<lparr>clock = 0, posts = [], playback_started_at = None\<rparr>"

section \<open>Theorems\<close>

subsection \<open>Audio hand-off\<close>

lemma send_audio_many_state:
  "send_audio_many es s = (if True \<in> set es then s\<lparr>pending_audio_ready := True\<rparr> else s)"
  by (induction es arbitrary: s) (auto simp: send_audio_def)

lemma audio_many_idle:
  "\<not> pending_audio_ready s \<Longrightarrow> audio_many fs s = (replicate (length fs) AudioNoContent204, s)"
  by (induction fs) (auto simp: audio_def)

lemma audio_many_first:
  "audio_many (f # fs) s =
     (fst (audio f s) # replicate (length fs) AudioNoContent204, snd (audio f s))"
proof -
  have idle: "\<not> pending_audio_ready (snd (audio f s))"
    by (simp add: audio_def)
  show ?thesis
    using audio_many_idle [OF idle, of fs] by (simp add: split_def Let_def)
qed

lemma audio_many_at_most_one:
  "length (filter (\<lambda>r. r \<noteq> AudioNoContent204) (fst (audio_many fs s))) \<le> 1"
proof (cases fs)
  case Nil
  then show ?thesis by simp
next
  case (Cons f fs')
  show ?thesis
    unfolding Cons audio_many_first by simp
qed

text \<open>
  C1 (as amended). The pending flag is a single boolean: any batch of calls to
  \<open>send_audio\<close> with no poll in between leaves the state of one successful call if at
  least one of them found the audio file, and the state as it was if none did (each of
  those answers 404). Of the polls of \<open>audio\<close> that follow, only the first can consume the
  flag: if the flag is set, it answers with the file's content when the file can be read
  and with the 500 error when it cannot, and clears the flag in both cases; if the flag is
  not set it answers 204. Every further poll answers the empty 204 response until the next
  successful trigger, after which a poll that can read the file returns its content again.
  So at most one poll of a sequence returns anything but the empty response.
\<close>

theorem audio_handoff_at_most_once:
  "send_audio_many es s = (if True \<in> set es then snd (send_audio True s) else s)
   \<and> fst (audio_many (f # fs) (send_audio_many es s)) =
       (if pending_audio_ready s \<or> True \<in> set es
        then (case f of Some bytes \<Rightarrow> AudioFile200 bytes | None \<Rightarrow> AudioReadFailed500)
        else AudioNoContent204)
       # replicate (length fs) AudioNoContent204
   \<and> \<not> pending_audio_ready (snd (audio_many (f # fs) (send_audio_many es s)))
   \<and> length (filter (\<lambda>r. r \<noteq> AudioNoContent204)
               (fst (audio_many fs' (send_audio_many es s)))) \<le> 1
   \<and> fst (audio (Some bytes')
            (snd (send_audio True (snd (audio_many (f # fs) (send_audio_many es s))))))
       = AudioFile200 bytes'"
proof -
  let ?t = "send_audio_many es s"
  have t: "?t = (if True \<in> set es then snd (send_audio True s) else s)"
    by (simp add: send_audio_many_state send_audio_def)
  have p: "pending_audio_ready ?t = (pending_audio_ready s \<or> True \<in> set es)"
    by (simp add: send_audio_many_state)
  have first: "fst (audio f ?t) =
       (if pending_audio_ready s \<or> True \<in> set es
        then (case f of Some bytes \<Rightarrow> AudioFile200 bytes | None \<Rightarrow> AudioReadFailed500)
        else AudioNoContent204)"
    using p by (simp add: audio_def)
  have idle: "\<not> pending_audio_ready (snd (audio f ?t))"
    by (simp add: audio_def)
  have again: "fst (audio (Some bytes') (snd (send_audio True (snd (audio f ?t)))))
       = AudioFile200 bytes'"
    by (simp add: audio_def send_audio_def)
  have many: "audio_many (f # fs) ?t =
      (fst (audio f ?t) # replicate (length fs) AudioNoContent204, snd (audio f ?t))"
    by (rule audio_many_first)
  have c2: "fst (audio_many (f # fs) ?t) =
       (if pending_audio_ready s \<or> True \<in> set es
        then (case f of Some bytes \<Rightarrow> AudioFile200 bytes | None \<Rightarrow> AudioReadFailed500)
        else AudioNoContent204)
       # replicate (length fs) AudioNoContent204"
    unfolding many using first by simp
  have c3: "\<not> pending_audio_ready (snd (audio_many (f # fs) ?t))"
    unfolding many using idle by simp
  have c4: "length (filter (\<lambda>r. r \<noteq> AudioNoContent204) (fst (audio_many fs' ?t))) \<le> 1"
    by (rule audio_many_at_most_one)
  have c5: "fst (audio (Some bytes') (snd (send_audio True (snd (audio_many (f # fs) ?t)))))
       = AudioFile200 bytes'"
    unfolding many using again by simp
  show ?thesis
    by (intro conjI) (fact t c2 c3 c4 c5)+
qed

theorem audio_handoff_at_most_once_witness:
  "send_audio_many [True, False, True] unity_init = snd (send_audio True unity_init)
   \<and> fst (audio_many [Some [73, 68, 51], None, Some [73, 68, 51]]
            (send_audio_many [True, False, True] unity_init))
       = [AudioFile200 [73, 68, 51], AudioNoContent204, AudioNoContent204]"
  using audio_handoff_at_most_once [of "[True, False, True]" unity_init "Some [73, 68, 51]"
      "[None, Some [73, 68, 51]]" "[]" "[]"]
  by (simp add: send_audio_def audio_def unity_init_def)

text \<open>
  C1 as stated fails: after two successful triggers, when the file cannot be read at the
  first poll, that poll answers 500 and clears the flag, so no poll returns the audio
  content, although the file can be read again afterwards; and after triggers that all
  answered 404 no poll returns content either.
\<close>

theorem audio_handoff_lost_counterexample:
  "fst (audio_many [None, Some [73, 68, 51], Some [73, 68, 51]]
         (send_audio_many [True, True] unity_init))
     = [AudioReadFailed500, AudioNoContent204, AudioNoContent204]
   \<and> fst (audio_many [Some [73, 68, 51], Some [73, 68, 51]]
            (send_audio_many [False, False] unity_init))
       = [AudioNoContent204, AudioNoContent204]"
  by (simp add: send_audio_def audio_def unity_init_def)

subsection \<open>Movement command\<close>

lemma accepted_key_mapping:
  "accepted_key f \<Longrightarrow> map_of key_mapping (upper (upper f)) = Some (direction_of f)"
  by (auto simp: accepted_key_def key_mapping_def direction_of_def upper_def upper_char_def)

lemma command_post_accepted:
  "accepted_key f \<Longrightarrow> command_post f s = (CommandOk, s\<lparr>current_command := direction_of f\<rparr>)"
  using accepted_key_mapping [of f]
  by (simp add: command_post_def set_current_command_from_key_def accepted_key_def Let_def)

lemma command_post_rejected:
  "\<not> accepted_key f \<Longrightarrow> command_post f s = (CommandInvalid400, s)"
  by (simp add: command_post_def accepted_key_def Let_def)

lemma command_posts_last:
  "current_command (command_posts fs s) =
     (case rev (filter accepted_key fs) of [] \<Rightarrow> current_command s | f # _ \<Rightarrow> direction_of f)"
proof (induction fs arbitrary: s)
  case Nil
  show ?case by simp
next
  case (Cons f fs)
  show ?case
  proof (cases "accepted_key f")
    case True
    then show ?thesis
      by (simp add: Cons.IH command_post_accepted split: list.splits)
  next
    case False
    then show ?thesis
      by (simp add: Cons.IH command_post_rejected)
  qed
qed

text \<open>
  C6 (as amended). The write operation accepts exactly the tokens whose upper-case form is
  one of W, A, S, D, X (so \<open>w\<close> is accepted like \<open>W\<close>) and stores the direction token mapped
  to it; every other input is rejected with the 400 validation error and leaves the state
  unchanged. Hence after any sequence of writes a read returns the direction of the most
  recently accepted token (or what it returned before, when none was accepted): a rejected
  token is never visible.
\<close>

theorem command_write_validation:
  "(accepted_key f \<longrightarrow>
      command_post f s = (CommandOk, s\<lparr>current_command := direction_of f\<rparr>)
      \<and> direction_of f \<in> set [''FORWARD'', ''BACKWARD'', ''LEFT'', ''RIGHT'', ''Not Moving''])
   \<and> (\<not> accepted_key f \<longrightarrow> command_post f s = (CommandInvalid400, s))
   \<and> command_get (command_posts fs s) =
       (case rev (filter accepted_key fs) of [] \<Rightarrow> command_get s | g # _ \<Rightarrow> direction_of g)"
proof -
  have dir: "direction_of f \<in> set [''FORWARD'', ''BACKWARD'', ''LEFT'', ''RIGHT'', ''Not Moving'']"
    by (simp add: direction_of_def)
  have nonempty: "direction_of g \<noteq> []" for g
    by (simp add: direction_of_def)
  have get: "command_get (command_posts fs s) =
       (case rev (filter accepted_key fs) of [] \<Rightarrow> command_get s | g # _ \<Rightarrow> direction_of g)"
    using nonempty by (simp add: command_get_def command_posts_last split: list.splits)
  show ?thesis
    using dir get by (simp add: command_post_accepted command_post_rejected)
qed

theorem command_write_validation_witness:
  "accepted_key ''d'' \<and> \<not> accepted_key ''Q''
   \<and> command_post ''d'' unity_init = (CommandOk, unity_init\<lparr>current_command := ''RIGHT''\<rparr>)
   \<and> command_post ''Q'' unity_init = (CommandInvalid400, unity_init)
   \<and> command_get (command_posts [''W'', ''q'', ''S'', ''up''] unity_init) = ''BACKWARD''"
proof -
  have a: "accepted_key ''d''" and r: "\<not> accepted_key ''Q''"
    by (simp_all add: accepted_key_def upper_def upper_char_def)
  have f: "filter accepted_key [''W'', ''q'', ''S'', ''up''] = [''W'', ''S'']"
    by (simp add: accepted_key_def upper_def upper_char_def)
  show ?thesis
    using a r f
      command_write_validation [of "''d''" unity_init "[]"]
      command_write_validation [of "''Q''" unity_init "[''W'', ''q'', ''S'', ''up'']"]
    by (simp add: direction_of_def upper_def upper_char_def)
qed

text \<open>
  C6 as stated fails: the lower-case token \<open>w\<close> is not one of the raw tokens W, A, S, D, X,
  yet the write accepts it and stores FORWARD.
\<close>

theorem command_write_lowercase_counterexample:
  "''w'' \<notin> set [''W'', ''A'', ''S'', ''D'', ''X'']
   \<and> command_post ''w'' unity_init = (CommandOk, unity_init\<lparr>current_command := ''FORWARD''\<rparr>)"
  by (simp add: command_post_def set_current_command_from_key_def key_mapping_def
      upper_def upper_char_def)

lemma key_mapping_tokens:
  "map_of key_mapping k = Some t \<Longrightarrow>
     t \<in> set [''FORWARD'', ''BACKWARD'', ''LEFT'', ''RIGHT'', ''NOT_MOVING'', ''Not Moving'', ''PHOTO'']"
  by (auto simp: key_mapping_def split: if_splits)

lemma set_key_tokens:
  assumes "current_command s \<in>
     set [''FORWARD'', ''BACKWARD'', ''LEFT'', ''RIGHT'', ''NOT_MOVING'', ''Not Moving'', ''PHOTO'']"
  shows "current_command (set_current_command_from_key k s) \<in>
     set [''FORWARD'', ''BACKWARD'', ''LEFT'', ''RIGHT'', ''NOT_MOVING'', ''Not Moving'', ''PHOTO'']"
proof (cases "map_of key_mapping (upper k)")
  case None
  then show ?thesis using assms by (simp add: set_current_command_from_key_def)
next
  case (Some t)
  then show ?thesis
    using key_mapping_tokens [OF Some] by (simp add: set_current_command_from_key_def)
qed

lemma command_step_tokens:
  assumes "current_command s \<in>
     set [''FORWARD'', ''BACKWARD'', ''LEFT'', ''RIGHT'', ''NOT_MOVING'', ''Not Moving'', ''PHOTO'']"
  shows "current_command (command_step e s) \<in>
     set [''FORWARD'', ''BACKWARD'', ''LEFT'', ''RIGHT'', ''NOT_MOVING'', ''Not Moving'', ''PHOTO'']"
proof (cases e)
  case (Post f)
  then show ?thesis
    using assms set_key_tokens [OF assms, of "upper f"]
    by (simp add: command_post_def Let_def)
next
  case (Keyboard l)
  then show ?thesis
    using assms set_key_tokens [OF assms, of "upper (strip l)"]
    by (simp add: keyboard_line_def Let_def)
next
  case (SetKey k)
  then show ?thesis
    using set_key_tokens [OF assms, of k] by simp
qed

lemma command_run_tokens:
  "current_command s \<in>
     set [''FORWARD'', ''BACKWARD'', ''LEFT'', ''RIGHT'', ''NOT_MOVING'', ''Not Moving'', ''PHOTO'']
   \<Longrightarrow> current_command (command_run es s) \<in>
     set [''FORWARD'', ''BACKWARD'', ''LEFT'', ''RIGHT'', ''NOT_MOVING'', ''Not Moving'', ''PHOTO'']"
proof (induction es arbitrary: s)
  case Nil
  then show ?case by simp
next
  case (Cons e es)
  show ?case
    using Cons.IH [OF command_step_tokens [OF Cons.prems, of e]] by simp
qed

text \<open>
  C7 (as amended). The read always returns a token (the function is total and has no error
  branch). When no command was ever set it returns NOT_MOVING, and in every state reached
  from the initial one by POSTs, keyboard lines and calls of
  \<open>set_current_command_from_key\<close> it returns one of FORWARD, BACKWARD, LEFT, RIGHT,
  NOT_MOVING, Not Moving, PHOTO.
\<close>

theorem command_read_tokens:
  "command_get unity_init = ''NOT_MOVING''
   \<and> command_get (command_run es unity_init) \<in>
       set [''FORWARD'', ''BACKWARD'', ''LEFT'', ''RIGHT'', ''NOT_MOVING'', ''Not Moving'', ''PHOTO'']"
proof -
  have init: "current_command unity_init \<in>
     set [''FORWARD'', ''BACKWARD'', ''LEFT'', ''RIGHT'', ''NOT_MOVING'', ''Not Moving'', ''PHOTO'']"
    by (simp add: unity_init_def)
  have "current_command (command_run es unity_init) \<in>
     set [''FORWARD'', ''BACKWARD'', ''LEFT'', ''RIGHT'', ''NOT_MOVING'', ''Not Moving'', ''PHOTO'']"
    using init by (rule command_run_tokens)
  then show ?thesis
    by (auto simp: command_get_def unity_init_def)
qed

text \<open>
  C7 as stated fails twice: the value read before any write is NOT_MOVING, not STOP, and
  after the accepted write X the read returns \<open>Not Moving\<close>, which is none of FORWARD,
  BACKWARD, LEFT, RIGHT, NOT_MOVING, PHOTO.
\<close>

theorem command_read_default_counterexample:
  "command_get unity_init \<noteq> ''STOP''
   \<and> command_get (command_run [Post ''X''] unity_init) = ''Not Moving''
   \<and> command_get (command_run [Post ''X''] unity_init) \<notin>
       set [''FORWARD'', ''BACKWARD'', ''LEFT'', ''RIGHT'', ''NOT_MOVING'', ''PHOTO'']"
  by (simp add: command_get_def unity_init_def command_post_def
      set_current_command_from_key_def key_mapping_def upper_def upper_char_def)

subsection \<open>Transcript\<close>

lemma strip_prefix: "\<exists>zs. dropWhile is_space s = strip s @ zs"
proof -
  let ?t = "dropWhile is_space s"
  have "?t = strip s @ rev (takeWhile is_space (rev ?t))"
    unfolding strip_def by (metis rev_append rev_rev_ident takeWhile_dropWhile_id)
  then show ?thesis ..
qed

lemma strip_hd: assumes "strip s \<noteq> []" shows "\<not> is_space (hd (strip s))"
proof -
  obtain zs where z: "dropWhile is_space s = strip s @ zs" using strip_prefix by blast
  then have ne: "dropWhile is_space s \<noteq> []" using assms by simp
  have "hd (dropWhile is_space s) = hd (strip s)" using z assms by simp
  then show ?thesis using hd_dropWhile [OF ne] by simp
qed

lemma strip_no_leading_space:
  assumes "strip s \<noteq> []" shows "dropWhile is_space (strip s) = strip s"
  using assms strip_hd [OF assms] by (cases "strip s") simp_all

lemma split_maxsplit1_shape:
  assumes "strip body \<noteq> []"
  shows "(\<exists>a. a \<noteq> [] \<and> split_maxsplit1 (strip body) = [a])
       \<or> (\<exists>a b. b \<noteq> [] \<and> split_maxsplit1 (strip body) = [a, b])"
proof -
  define raw where "raw = strip body"
  define r where "r = dropWhile is_space (dropWhile (\<lambda>c. \<not> is_space c) raw)"
  have ne: "raw \<noteq> []"
    using assms by (simp add: raw_def)
  have d: "dropWhile is_space raw = raw"
    unfolding raw_def using assms by (rule strip_no_leading_space)
  have "\<not> is_space (hd raw)"
    unfolding raw_def using assms by (rule strip_hd)
  then have tk: "takeWhile (\<lambda>c. \<not> is_space c) raw \<noteq> []"
    using ne by (cases raw) simp_all
  have s: "split_maxsplit1 raw =
      (if r = [] then [takeWhile (\<lambda>c. \<not> is_space c) raw]
       else [takeWhile (\<lambda>c. \<not> is_space c) raw, r])"
    unfolding split_maxsplit1_def Let_def d r_def using ne by simp
  show ?thesis
  proof (cases "r = []")
    case True
    then show ?thesis using s tk by (simp add: raw_def)
  next
    case False
    then show ?thesis using s by (simp add: raw_def)
  qed
qed

lemma receive_transcript_nonblank:
  assumes "strip body \<noteq> []" and "float_of ''0'' = Some (Finite 0)"
  shows "receive_transcript float_of now body s =
           (TranscriptOk,
            s\<lparr>current_transcript := body_text body,
              transcript_expire_time := expiry now (body_duration float_of body)\<rparr>)
         \<and> body_text body \<noteq> []"
proof -
  from split_maxsplit1_shape [OF assms(1)] show ?thesis
  proof (elim disjE exE conjE)
    fix a assume "a \<noteq> []" "split_maxsplit1 (strip body) = [a]"
    then show ?thesis
      using assms
      by (simp add: receive_transcript_def body_text_def body_duration_def expiry_def)
  next
    fix a b assume "b \<noteq> []" "split_maxsplit1 (strip body) = [a, b]"
    then show ?thesis
      using assms(1)
      by (simp add: receive_transcript_def body_text_def body_duration_def expiry_def)
  qed
qed

lemma py_lt_not_le: "py_lt a b \<Longrightarrow> py_le b a = False"
  by (cases a; cases b) simp_all

lemma double_of_real_not_nan: "double_of_real x \<noteq> NaN"
  by (simp add: double_of_real_def)

lemma py_add_Finite_not_nan: "b \<noteq> NaN \<Longrightarrow> py_add (Finite a) b \<noteq> NaN"
  by (cases b) (simp_all add: double_of_real_not_nan)

lemma py_max_zero:
  "py_max (Finite 0) d =
     (case d of Finite x \<Rightarrow> Finite (max 0 x) | PosInf \<Rightarrow> PosInf | NegInf \<Rightarrow> Finite 0
      | NaN \<Rightarrow> Finite 0)"
  by (cases d) (auto simp: py_max_def)

lemma expiry_not_nan: "expiry now d \<noteq> NaN"
proof -
  have "py_add (py_max (Finite 0) d) (Finite 5) \<noteq> NaN"
    by (cases d) (simp_all add: py_max_zero double_of_real_not_nan)
  then show ?thesis
    unfolding expiry_def by (rule py_add_Finite_not_nan)
qed

text \<open>
  C3 (as amended). A publish whose body is blank (empty or whitespace only) is rejected
  with the 400 error and changes nothing. Every other publish, whatever the stored text and
  expiry were, replaces the text and sets the expiry to \<open>now + (max(0, d) + 5.0)\<close> in
  float arithmetic, where \<open>d\<close> is the parsed first token of a body of two parts, and 0 when
  that token does not parse or the body is a single token (which is then the text). A read
  before the expiry returns the stored text, a read at or after it returns the empty
  string; the read has no error branch. The expiry is never a NaN; a duration that is
  negative or a NaN counts as 0, and an infinite duration gives the infinite expiry, which
  no read reaches.
\<close>

theorem transcript_ttl_contract:
  "(strip body = [] \<longrightarrow> receive_transcript float_of now body s = (TranscriptEmptyBody400, s))
   \<and> (strip body \<noteq> [] \<and> float_of ''0'' = Some (Finite 0) \<longrightarrow>
        receive_transcript float_of now body s =
          (TranscriptOk,
           s\<lparr>current_transcript := body_text body,
             transcript_expire_time := expiry now (body_duration float_of body)\<rparr>)
        \<and> (\<forall>t. py_lt (Finite t) (expiry now (body_duration float_of body)) \<longrightarrow>
              latest_transcript t (snd (receive_transcript float_of now body s)) = body_text body)
        \<and> (\<forall>t. py_le (expiry now (body_duration float_of body)) (Finite t) \<longrightarrow>
              latest_transcript t (snd (receive_transcript float_of now body s)) = []))
   \<and> expiry now d \<noteq> NaN
   \<and> (x \<le> 0 \<longrightarrow> expiry now (Finite x) = expiry now (Finite 0))
   \<and> expiry now NaN = expiry now (Finite 0)
   \<and> expiry now NegInf = expiry now (Finite 0)
   \<and> expiry now PosInf = PosInf
   \<and> \<not> py_le PosInf (Finite t')"
proof -
  have publish: "receive_transcript float_of now body s =
          (TranscriptOk,
           s\<lparr>current_transcript := body_text body,
             transcript_expire_time := expiry now (body_duration float_of body)\<rparr>)
        \<and> (\<forall>t. py_lt (Finite t) (expiry now (body_duration float_of body)) \<longrightarrow>
              latest_transcript t (snd (receive_transcript float_of now body s)) = body_text body)
        \<and> (\<forall>t. py_le (expiry now (body_duration float_of body)) (Finite t) \<longrightarrow>
              latest_transcript t (snd (receive_transcript float_of now body s)) = [])"
    if nb: "strip body \<noteq> [] \<and> float_of ''0'' = Some (Finite 0)"
  proof -
    have r: "receive_transcript float_of now body s =
          (TranscriptOk,
           s\<lparr>current_transcript := body_text body,
             transcript_expire_time := expiry now (body_duration float_of body)\<rparr>)"
      and ne: "body_text body \<noteq> []"
      using nb receive_transcript_nonblank [of body float_of now s] by simp_all
    show ?thesis
      unfolding r using ne by (simp add: latest_transcript_def py_lt_not_le)
  qed
  have c1: "strip body = [] \<longrightarrow>
      receive_transcript float_of now body s = (TranscriptEmptyBody400, s)"
    by (simp add: receive_transcript_def)
  have c2: "strip body \<noteq> [] \<and> float_of ''0'' = Some (Finite 0) \<longrightarrow>
        receive_transcript float_of now body s =
          (TranscriptOk,
           s\<lparr>current_transcript := body_text body,
             transcript_expire_time := expiry now (body_duration float_of body)\<rparr>)
        \<and> (\<forall>t. py_lt (Finite t) (expiry now (body_duration float_of body)) \<longrightarrow>
              latest_transcript t (snd (receive_transcript float_of now body s)) = body_text body)
        \<and> (\<forall>t. py_le (expiry now (body_duration float_of body)) (Finite t) \<longrightarrow>
              latest_transcript t (snd (receive_transcript float_of now body s)) = [])"
    using publish by (rule impI)
  have c3: "expiry now d \<noteq> NaN"
    by (rule expiry_not_nan)
  have c4: "x \<le> 0 \<longrightarrow> expiry now (Finite x) = expiry now (Finite 0)"
    by (simp add: expiry_def py_max_zero)
  have c5: "expiry now NaN = expiry now (Finite 0)"
    by (simp add: expiry_def py_max_zero)
  have c6: "expiry now NegInf = expiry now (Finite 0)"
    by (simp add: expiry_def py_max_zero)
  have c7: "expiry now PosInf = PosInf"
    by (simp add: expiry_def py_max_zero)
  have c8: "\<not> py_le PosInf (Finite t')"
    by simp
  show ?thesis
    by (intro conjI) (fact c1 c2 c3 c4 c5 c6 c7 c8)+
qed

theorem transcript_ttl_contract_witness:
  "strip ''3 hello'' \<noteq> [] \<and> float_of_example ''0'' = Some (Finite 0)
   \<and> receive_transcript float_of_example 100 ''3 hello'' unity_init =
       (TranscriptOk,
        unity_init\<lparr>current_transcript := ''hello'', transcript_expire_time := Finite 108\<rparr>)
   \<and> latest_transcript 100 (snd (receive_transcript float_of_example 100 ''3 hello'' unity_init))
       = ''hello''
   \<and> latest_transcript 108 (snd (receive_transcript float_of_example 100 ''3 hello'' unity_init))
       = []
   \<and> strip [CHR 0xA0, CHR '' ''] = []
   \<and> receive_transcript float_of_example 100 [CHR 0xA0, CHR '' ''] unity_init
       = (TranscriptEmptyBody400, unity_init)"
proof -
  have h: "strip ''3 hello'' \<noteq> []" "float_of_example ''0'' = Some (Finite 0)"
    "strip [CHR 0xA0, CHR '' ''] = []"
    by (simp_all add: strip_def is_space_def float_of_example_def)
  have t: "body_text ''3 hello'' = ''hello''"
    by (simp add: body_text_def split_maxsplit1_def strip_def is_space_def)
  have d: "body_duration float_of_example ''3 hello'' = Finite 3"
    by (simp add: body_duration_def split_maxsplit1_def strip_def is_space_def float_of_example_def)
  have e: "expiry 100 (Finite 3) = Finite 108"
    by (simp add: expiry_def py_max_def double_of_real_def quantum_def halvings.simps
        round_half_even_def)
  show ?thesis
    using h t d e
      transcript_ttl_contract [of "''3 hello''" float_of_example 100 unity_init "Finite 3" 1 0]
      transcript_ttl_contract [of "[CHR 0xA0, CHR '' '']" float_of_example 100 unity_init
        "Finite 3" 1 0]
    by (simp add: latest_transcript_def)
qed

text \<open>
  C3 as stated fails: a publish with a blank body does not replace the stored text nor set
  the expiry; it is rejected and the stored, long expired, text and expiry stay.
\<close>

theorem transcript_blank_body_counterexample:
  "receive_transcript float_of_example 100 '' ''
      (unity_init\<lparr>current_transcript := ''old'', transcript_expire_time := Finite 50\<rparr>)
     = (TranscriptEmptyBody400,
        unity_init\<lparr>current_transcript := ''old'', transcript_expire_time := Finite 50\<rparr>)
   \<and> transcript_expire_time
        (snd (receive_transcript float_of_example 100 '' ''
           (unity_init\<lparr>current_transcript := ''old'', transcript_expire_time := Finite 50\<rparr>)))
       \<noteq> Finite (100 + max 0 0 + 5)"
  by (simp add: receive_transcript_def strip_def is_space_def)

text \<open>
  For the record: a body that is a duration only (a lyric line with no text gives \<open>10 \<close>)
  is read as a text without a duration, and an infinite duration gives a text that never
  expires.
\<close>

lemma transcript_duration_only_body:
  "receive_transcript float_of_example 100 ''10 '' unity_init =
     (TranscriptOk,
      unity_init\<lparr>current_transcript := ''10'', transcript_expire_time := Finite 105\<rparr>)"
  by (simp add: receive_transcript_def strip_def is_space_def split_maxsplit1_def
      float_of_example_def py_max_def double_of_real_def quantum_def halvings.simps
      round_half_even_def)

lemma transcript_infinite_duration:
  "receive_transcript float_of_example 100 ''inf hello'' unity_init =
     (TranscriptOk,
      unity_init\<lparr>current_transcript := ''hello'', transcript_expire_time := PosInf\<rparr>)"
  by (simp add: receive_transcript_def strip_def is_space_def split_maxsplit1_def
      float_of_example_def py_max_def)

subsection \<open>Frames\<close>

lemma b64decode_hello: "b64decode ''aGVsbG8='' = Inr [104, 101, 108, 108, 111]"
  by (simp add: b64decode_def table_a2b_base64_def b64_alphabet_def)

lemma b64decode_jpeg: "b64decode ''/9j/2Q=='' = Inr [0xFF, 0xD8, 0xFF, 0xD9]"
  by (simp add: b64decode_def table_a2b_base64_def b64_alphabet_def)

lemma b64decode_bad_length: "b64decode ''abcde'' = Inl InvalidDataLength"
  by (simp add: b64decode_def table_a2b_base64_def b64_alphabet_def)

lemma b64decode_no_data: "b64decode ''!!!!'' = Inr []"
  by (simp add: b64decode_def table_a2b_base64_def b64_alphabet_def)

text \<open>
  C5 (as amended). The frame push checks only that the \<open>frame\<close> field is present, not
  empty, and decodes as base64; it does not look at the decoded bytes. A push that is
  rejected (missing or empty field: 400, decoding error: 500) leaves the state, and so what
  \<open>latest_jpg\<close> returns, unchanged; a push is accepted exactly when the field decodes, and
  then the decoded bytes replace the single frame slot.
\<close>

theorem frame_push_validation:
  "(fst (receive_frame p s) \<noteq> FrameOk \<longrightarrow>
      snd (receive_frame p s) = s \<and> latest_jpg (snd (receive_frame p s)) = latest_jpg s)
   \<and> ((fst (receive_frame p s) = FrameOk) = (\<exists>f b. p = Some f \<and> f \<noteq> [] \<and> b64decode f = Inr b))
   \<and> (\<forall>f b. p = Some f \<and> f \<noteq> [] \<and> b64decode f = Inr b \<longrightarrow>
         receive_frame p s = (FrameOk, s\<lparr>latest_frame_bytes := Some b\<rparr>)
         \<and> latest_jpg (snd (receive_frame p s)) = LatestJpeg200 b)"
proof (cases p)
  case None
  then show ?thesis by (simp add: receive_frame_def)
next
  case (Some f)
  show ?thesis
  proof (cases "f = []")
    case True
    with Some show ?thesis by (simp add: receive_frame_def)
  next
    case False
    show ?thesis
    proof (cases "b64decode f")
      case (Inl e)
      with Some False show ?thesis by (simp add: receive_frame_def)
    next
      case (Inr b)
      with Some False show ?thesis by (simp add: receive_frame_def latest_jpg_def)
    qed
  qed
qed

theorem frame_push_validation_witness:
  "fst (receive_frame (Some ''abcde'') (unity_init\<lparr>latest_frame_bytes := Some [0xFF, 0xD8, 0xFF, 0xD9]\<rparr>))
     \<noteq> FrameOk
   \<and> latest_jpg (snd (receive_frame (Some ''abcde'')
        (unity_init\<lparr>latest_frame_bytes := Some [0xFF, 0xD8, 0xFF, 0xD9]\<rparr>)))
       = LatestJpeg200 [0xFF, 0xD8, 0xFF, 0xD9]
   \<and> ''/9j/2Q=='' \<noteq> [] \<and> b64decode ''/9j/2Q=='' = Inr [0xFF, 0xD8, 0xFF, 0xD9]
   \<and> receive_frame (Some ''/9j/2Q=='') unity_init
       = (FrameOk, unity_init\<lparr>latest_frame_bytes := Some [0xFF, 0xD8, 0xFF, 0xD9]\<rparr>)"
proof -
  have bad: "fst (receive_frame (Some ''abcde'')
      (unity_init\<lparr>latest_frame_bytes := Some [0xFF, 0xD8, 0xFF, 0xD9]\<rparr>)) \<noteq> FrameOk"
    by (simp add: receive_frame_def b64decode_bad_length)
  show ?thesis
    using bad b64decode_jpeg
      frame_push_validation [of "Some ''abcde''"
        "unity_init\<lparr>latest_frame_bytes := Some [0xFF, 0xD8, 0xFF, 0xD9]\<rparr>"]
      frame_push_validation [of "Some ''/9j/2Q==''" unity_init]
    by (simp add: latest_jpg_def)
qed

text \<open>
  C5 as stated fails: the payload \<open>aGVsbG8=\<close> is the base64 text of the five bytes of
  \<open>hello\<close>, which are no image (they do not even begin with the JPEG start marker), yet the
  push is accepted and replaces a stored JPEG; after it \<open>latest_jpg\<close> no longer returns
  the prior valid frame.
\<close>

theorem frame_push_not_image_counterexample:
  "receive_frame (Some ''aGVsbG8='') (unity_init\<lparr>latest_frame_bytes := Some [0xFF, 0xD8, 0xFF, 0xD9]\<rparr>)
     = (FrameOk, unity_init\<lparr>latest_frame_bytes := Some [104, 101, 108, 108, 111]\<rparr>)
   \<and> \<not> jpeg_soi [104, 101, 108, 108, 111]
   \<and> jpeg_soi [0xFF, 0xD8, 0xFF, 0xD9]
   \<and> latest_jpg (snd (receive_frame (Some ''aGVsbG8='')
         (unity_init\<lparr>latest_frame_bytes := Some [0xFF, 0xD8, 0xFF, 0xD9]\<rparr>)))
       \<noteq> latest_jpg (unity_init\<lparr>latest_frame_bytes := Some [0xFF, 0xD8, 0xFF, 0xD9]\<rparr>)"
  by (simp add: receive_frame_def b64decode_hello jpeg_soi_def latest_jpg_def)

subsection \<open>LRC parsing\<close>

lemma takeWhile_digits:
  "list_all is_digit m \<Longrightarrow> \<not> is_digit x \<Longrightarrow> takeWhile is_digit (m @ x # r) = m"
  by (induction m) simp_all

lemma dropWhile_digits:
  "list_all is_digit m \<Longrightarrow> \<not> is_digit x \<Longrightarrow> dropWhile is_digit (m @ x # r) = x # r"
  by (induction m) simp_all

lemma takeWhile_is_digit_all: "list_all is_digit (takeWhile is_digit r)"
  by (induction r) simp_all

lemma lrc_form_match:
  assumes "lrc_form line mm ss cc text"
  shows "lrc_match line = Some (mm, ss, cc, text)"
proof -
  have nd: "\<not> is_digit CHR '':''" "\<not> is_digit CHR ''.''" "\<not> is_digit CHR '']''"
    by (simp_all add: is_digit_def)
  have l: "line = CHR ''['' # (mm @ CHR '':'' # (ss @ CHR ''.'' # (cc @ CHR '']'' # text)))"
    and mm: "mm \<noteq> []" "list_all is_digit mm"
    and ss: "ss \<noteq> []" "list_all is_digit ss"
    and cc: "cc \<noteq> []" "list_all is_digit cc"
    using assms by (simp_all add: lrc_form_def digits_def)
  show ?thesis
    unfolding lrc_match_def l
    using mm ss cc nd by (simp add: takeWhile_digits dropWhile_digits)
qed

lemma lrc_match_form:
  assumes "lrc_match line = Some (mm, ss, cc, text)"
  shows "lrc_form line mm ss cc text"
proof -
  obtain r0 where l0: "line = CHR ''['' # r0" and m0: "takeWhile is_digit r0 \<noteq> []"
    using assms by (cases line) (auto simp: lrc_match_def split: if_splits)
  obtain r1 where l1: "dropWhile is_digit r0 = CHR '':'' # r1" and m1: "takeWhile is_digit r1 \<noteq> []"
    using assms l0 m0 by (cases "dropWhile is_digit r0") (auto simp: lrc_match_def split: if_splits)
  obtain r2 where l2: "dropWhile is_digit r1 = CHR ''.'' # r2" and m2: "takeWhile is_digit r2 \<noteq> []"
    using assms l0 m0 l1 m1
    by (cases "dropWhile is_digit r1") (auto simp: lrc_match_def split: if_splits)
  obtain r3 where l3: "dropWhile is_digit r2 = CHR '']'' # r3"
    using assms l0 m0 l1 m1 l2 m2
    by (cases "dropWhile is_digit r2") (auto simp: lrc_match_def split: if_splits)
  have g: "mm = takeWhile is_digit r0" "ss = takeWhile is_digit r1"
      "cc = takeWhile is_digit r2" "text = r3"
    using assms l0 m0 l1 m1 l2 m2 l3 by (simp_all add: lrc_match_def)
  have "r0 = takeWhile is_digit r0 @ dropWhile is_digit r0"
    "r1 = takeWhile is_digit r1 @ dropWhile is_digit r1"
    "r2 = takeWhile is_digit r2 @ dropWhile is_digit r2"
    by simp_all
  then have "line = ''['' @ mm @ '':'' @ ss @ ''.'' @ cc @ '']'' @ text"
    using l0 l1 l2 l3 g by simp
  then show ?thesis
    using g m0 m1 m2 by (simp add: lrc_form_def digits_def takeWhile_is_digit_all)
qed

lemma lrc_match_iff:
  "(lrc_match l = Some (a, b, c, d)) = lrc_form l a b c d"
  using lrc_form_match lrc_match_form by blast

lemma lrc_match_None_iff:
  "(lrc_match l \<noteq> None) = (\<exists>mm ss cc text. lrc_form l mm ss cc text)"
proof
  assume "lrc_match l \<noteq> None"
  then obtain a b c d where "lrc_match l = Some (a, b, c, d)"
    by (cases "lrc_match l") auto
  then have "lrc_form l a b c d" by (rule lrc_match_form)
  then show "\<exists>mm ss cc text. lrc_form l mm ss cc text" by blast
next
  assume "\<exists>mm ss cc text. lrc_form l mm ss cc text"
  then obtain a b c d where "lrc_form l a b c d" by blast
  then show "lrc_match l \<noteq> None" by (simp add: lrc_form_match)
qed

lemma convert_line:
  assumes "minutes_convert mm"
  shows "py_int mm = Inr (int (nat_of_digits mm))"
    and "int_add_float (int (nat_of_digits mm) * 60) f =
           Inr (py_add (double_of_real (real (nat_of_digits mm * 60))) f)"
proof -
  have l: "length mm \<le> 4300" and r: "real (nat_of_digits mm * 60) < 2 ^ 1024 - 2 ^ 970"
    using assms by (simp_all add: minutes_convert_def)
  show "py_int mm = Inr (int (nat_of_digits mm))"
    using l by (simp add: py_int_def)
  have e: "real_of_int (int (nat_of_digits mm) * 60) = real (nat_of_digits mm * 60)"
    by simp
  have "\<bar>real (nat_of_digits mm * 60)\<bar> < 2 ^ 1024 - 2 ^ 970"
    using r by simp
  then show "int_add_float (int (nat_of_digits mm) * 60) f =
           Inr (py_add (double_of_real (real (nat_of_digits mm * 60))) f)"
    unfolding int_add_float_def e by simp
qed

lemma no_convert_line:
  assumes "\<not> minutes_convert mm"
  shows "py_int mm = Inl ValueError
       \<or> (py_int mm = Inr (int (nat_of_digits mm))
          \<and> int_add_float (int (nat_of_digits mm) * 60) f = Inl OverflowError)"
proof (cases "4300 < length mm")
  case True
  then show ?thesis by (simp add: py_int_def)
next
  case False
  then have "2 ^ 1024 - 2 ^ 970 \<le> real (nat_of_digits mm * 60)"
    using assms by (simp add: minutes_convert_def)
  moreover have "real_of_int (int (nat_of_digits mm) * 60) = real (nat_of_digits mm * 60)"
    by simp
  ultimately have "int_add_float (int (nat_of_digits mm) * 60) f = Inl OverflowError"
    unfolding int_add_float_def by simp
  then show ?thesis using False by (simp add: py_int_def)
qed

lemma parse_lines_convert:
  assumes "\<forall>l \<in> set ls. \<forall>mm ss cc text. lrc_form l mm ss cc text \<longrightarrow> minutes_convert mm"
  shows "parse_lines ls = Inr (map lrc_entry (filter (\<lambda>l. lrc_match l \<noteq> None) ls))"
  using assms
proof (induction ls)
  case Nil
  show ?case by simp
next
  case (Cons l ls)
  then have ih: "parse_lines ls = Inr (map lrc_entry (filter (\<lambda>l. lrc_match l \<noteq> None) ls))"
    by simp
  show ?case
  proof (cases "lrc_match l")
    case None
    then show ?thesis using ih by simp
  next
    case (Some g)
    obtain a b c d where g: "g = (a, b, c, d)"
      by (cases g)
    have "lrc_form l a b c d"
      using Some g by (simp add: lrc_match_iff)
    then have "minutes_convert a"
      using Cons.prems by auto
    then show ?thesis
      using Some g ih convert_line(1) [of a] convert_line(2) [of a "float_of_decimal b c"]
      by (simp add: lrc_entry_def lrc_seconds_def)
  qed
qed

lemma parse_lines_raises:
  assumes "\<exists>l \<in> set ls. \<exists>mm ss cc text. lrc_form l mm ss cc text \<and> \<not> minutes_convert mm"
  shows "\<exists>e. parse_lines ls = Inl e"
  using assms
proof (induction ls)
  case Nil
  then show ?case by simp
next
  case (Cons l ls)
  show ?case
  proof (cases "\<exists>mm ss cc text. lrc_form l mm ss cc text \<and> \<not> minutes_convert mm")
    case True
    then obtain a b c d where f: "lrc_form l a b c d" and n: "\<not> minutes_convert a"
      by blast
    have m: "lrc_match l = Some (a, b, c, d)"
      using f by (rule lrc_form_match)
    from no_convert_line [OF n, of "float_of_decimal b c"] show ?thesis
    proof
      assume "py_int a = Inl ValueError"
      then show ?thesis using m by simp
    next
      assume "py_int a = Inr (int (nat_of_digits a))
          \<and> int_add_float (int (nat_of_digits a) * 60) (float_of_decimal b c) = Inl OverflowError"
      then show ?thesis using m by simp
    qed
  next
    case False
    then have "\<exists>l \<in> set ls. \<exists>mm ss cc text. lrc_form l mm ss cc text \<and> \<not> minutes_convert mm"
      using Cons.prems by (metis set_ConsD)
    then obtain e where e: "parse_lines ls = Inl e"
      using Cons.IH by blast
    show ?thesis
    proof (cases "lrc_match l")
      case None
      then show ?thesis using e by simp
    next
      case (Some g)
      obtain a b c d where g: "g = (a, b, c, d)"
        by (cases g)
      show ?thesis
        using Some g e by (simp add: Let_def split: sum.splits)
    qed
  qed
qed

lemma nines_plus_one:
  "foldl (\<lambda>acc c. acc * 10 + digit_value c) a (replicate k CHR ''9'') + 1 = (a + 1) * 10 ^ k"
proof (induction k arbitrary: a)
  case 0
  show ?case by simp
next
  case (Suc k)
  have d: "digit_value CHR ''9'' = 9"
    by (simp add: digit_value_def)
  show ?case
    using Suc.IH [of "a * 10 + 9"] by (simp add: d algebra_simps)
qed

lemma nat_of_nines: "nat_of_digits (replicate k CHR ''9'') + 1 = 10 ^ k"
  using nines_plus_one [of 0 k] by (simp add: nat_of_digits_def)

lemma split_newline_one: "CHR 0x0A \<notin> set s \<Longrightarrow> split_newline s = [s]"
  by (induction s) auto

text \<open>
  C8 (as amended). \<open>parse_lrc_timestamps\<close> returns the empty list for None and for the
  empty string. For every other input in which the minutes field of every line of the form
  \<open>[mm:ss.cc]text\<close> (each of mm, ss, cc a non-empty run of digits) converts, it returns, in
  line order, one entry per line of that form and nothing for the other lines, which are
  dropped. The entry of such a line is the pair of minutes * 60 + seconds, computed in
  float arithmetic, and the stripped text. When the minutes field of a line of that form
  does not convert (more than 4300 digits, or sixty times its number beyond the doubles),
  the function raises instead of returning.
\<close>

theorem parse_lrc_timestamps_lines:
  "parse_lrc_timestamps None = Inr []
   \<and> parse_lrc_timestamps (Some []) = Inr []
   \<and> (s \<noteq> []
        \<and> (\<forall>l \<in> set (split_newline s). \<forall>mm ss cc text.
              lrc_form l mm ss cc text \<longrightarrow> minutes_convert mm) \<longrightarrow>
        parse_lrc_timestamps (Some s) =
          Inr (map lrc_entry
                (filter (\<lambda>l. \<exists>mm ss cc text. lrc_form l mm ss cc text) (split_newline s))))
   \<and> (lrc_form line mm ss cc text \<longrightarrow>
        lrc_entry line =
          (py_add (double_of_real (real (nat_of_digits mm * 60))) (float_of_decimal ss cc),
           strip text))
   \<and> (s \<noteq> []
        \<and> (\<exists>l \<in> set (split_newline s). \<exists>mm ss cc text.
              lrc_form l mm ss cc text \<and> \<not> minutes_convert mm) \<longrightarrow>
        (\<exists>e. parse_lrc_timestamps (Some s) = Inl e))"
proof -
  have c1: "parse_lrc_timestamps None = Inr []"
    and c2: "parse_lrc_timestamps (Some []) = Inr []"
    by (simp_all add: parse_lrc_timestamps_def)
  have c3: "s \<noteq> []
        \<and> (\<forall>l \<in> set (split_newline s). \<forall>mm ss cc text.
              lrc_form l mm ss cc text \<longrightarrow> minutes_convert mm) \<longrightarrow>
        parse_lrc_timestamps (Some s) =
          Inr (map lrc_entry
                (filter (\<lambda>l. \<exists>mm ss cc text. lrc_form l mm ss cc text) (split_newline s)))"
  proof
    assume a: "s \<noteq> []
        \<and> (\<forall>l \<in> set (split_newline s). \<forall>mm ss cc text.
              lrc_form l mm ss cc text \<longrightarrow> minutes_convert mm)"
    have "parse_lrc_timestamps (Some s) = parse_lines (split_newline s)"
      using a by (simp add: parse_lrc_timestamps_def)
    also have "\<dots> = Inr (map lrc_entry (filter (\<lambda>l. lrc_match l \<noteq> None) (split_newline s)))"
      using a by (intro parse_lines_convert) blast
    also have "\<dots> = Inr (map lrc_entry
        (filter (\<lambda>l. \<exists>mm ss cc text. lrc_form l mm ss cc text) (split_newline s)))"
      by (simp only: lrc_match_None_iff)
    finally show "parse_lrc_timestamps (Some s) =
          Inr (map lrc_entry
                (filter (\<lambda>l. \<exists>mm ss cc text. lrc_form l mm ss cc text) (split_newline s)))" .
  qed
  have c4: "lrc_form line mm ss cc text \<longrightarrow>
        lrc_entry line =
          (py_add (double_of_real (real (nat_of_digits mm * 60))) (float_of_decimal ss cc),
           strip text)"
  proof
    assume "lrc_form line mm ss cc text"
    then have "lrc_match line = Some (mm, ss, cc, text)"
      by (rule lrc_form_match)
    then show "lrc_entry line =
          (py_add (double_of_real (real (nat_of_digits mm * 60))) (float_of_decimal ss cc),
           strip text)"
      by (simp add: lrc_entry_def lrc_seconds_def)
  qed
  have c5: "s \<noteq> []
        \<and> (\<exists>l \<in> set (split_newline s). \<exists>mm ss cc text.
              lrc_form l mm ss cc text \<and> \<not> minutes_convert mm) \<longrightarrow>
        (\<exists>e. parse_lrc_timestamps (Some s) = Inl e)"
  proof
    assume a: "s \<noteq> []
        \<and> (\<exists>l \<in> set (split_newline s). \<exists>mm ss cc text.
              lrc_form l mm ss cc text \<and> \<not> minutes_convert mm)"
    have "parse_lrc_timestamps (Some s) = parse_lines (split_newline s)"
      using a by (simp add: parse_lrc_timestamps_def)
    moreover have "\<exists>e. parse_lines (split_newline s) = Inl e"
      using a by (intro parse_lines_raises) blast
    ultimately show "\<exists>e. parse_lrc_timestamps (Some s) = Inl e"
      by simp
  qed
  show ?thesis
    by (intro conjI) (fact c1 c2 c3 c4 c5)+
qed

theorem parse_lrc_timestamps_lines_witness:
  "lrc_form ''[01:08.04]b'' ''01'' ''08'' ''04'' ''b''
   \<and> lrc_entry ''[01:08.04]b'' = (Finite (2393944676924129 / 35184372088832), ''b'')
   \<and> parse_lrc_timestamps (Some ''[00:12.50] hello \<newline>[ar:x]\<newline>[01:08.04]b'')
       = Inr [(Finite (25 / 2), ''hello''), (Finite (2393944676924129 / 35184372088832), ''b'')]
   \<and> lrc_form (''['' @ replicate 4301 CHR ''0'' @ '':00.00]x'') (replicate 4301 CHR ''0'')
        ''00'' ''00'' ''x''
   \<and> \<not> minutes_convert (replicate 4301 CHR ''0'')
   \<and> isl (parse_lrc_timestamps (Some (''['' @ replicate 4301 CHR ''0'' @ '':00.00]x'')))"
proof -
  let ?s = "''[00:12.50] hello \<newline>[ar:x]\<newline>[01:08.04]b''"
  let ?z = "''['' @ replicate 4301 CHR ''0'' @ '':00.00]x''"
  note ev = nat_of_digits_def digit_value_def float_of_decimal_def double_of_real_def
    quantum_def halvings.simps doublings.simps round_half_even_def
  have f: "lrc_form ''[01:08.04]b'' ''01'' ''08'' ''04'' ''b''"
    by (simp add: lrc_form_def digits_def is_digit_def)
  have l: "split_newline ?s = [''[00:12.50] hello '', ''[ar:x]'', ''[01:08.04]b'']"
    by simp
  have m: "lrc_match ''[00:12.50] hello '' = Some (''00'', ''12'', ''50'', '' hello '')"
    "lrc_match ''[ar:x]'' = None"
    "lrc_match ''[01:08.04]b'' = Some (''01'', ''08'', ''04'', ''b'')"
    by (simp_all add: lrc_match_def is_digit_def)
  have c: "minutes_convert ''00''" "minutes_convert ''01''"
    by (simp_all add: minutes_convert_def nat_of_digits_def digit_value_def)
  have h: "\<forall>l \<in> set (split_newline ?s). \<forall>mm ss cc text.
      lrc_form l mm ss cc text \<longrightarrow> minutes_convert mm"
    unfolding l using m c by (simp add: lrc_match_iff [symmetric])
  have k: "filter (\<lambda>l. \<exists>mm ss cc text. lrc_form l mm ss cc text) (split_newline ?s)
      = [''[00:12.50] hello '', ''[01:08.04]b'']"
    unfolding l using m by (simp add: lrc_match_None_iff [symmetric])
  have v1: "py_add (double_of_real (real (nat_of_digits ''00'' * 60)))
      (float_of_decimal ''12'' ''50'') = Finite (25 / 2)"
    by (simp add: ev)
  have v2: "py_add (double_of_real (real (nat_of_digits ''01'' * 60)))
      (float_of_decimal ''08'' ''04'') = Finite (2393944676924129 / 35184372088832)"
    by (simp add: ev)
  have s: "strip '' hello '' = ''hello''" "strip ''b'' = ''b''"
    by (simp_all add: strip_def is_space_def)
  have e: "lrc_entry ''[00:12.50] hello '' = (Finite (25 / 2), ''hello'')"
    using m v1 s by (simp add: lrc_entry_def lrc_seconds_def)
  have fz: "lrc_form ?z (replicate 4301 CHR ''0'') ''00'' ''00'' ''x''"
    by (simp add: lrc_form_def digits_def is_digit_def list_all_iff)
  have nz: "\<not> minutes_convert (replicate 4301 CHR ''0'')"
    by (simp add: minutes_convert_def)
  have sz: "split_newline ?z = [?z]"
    by (rule split_newline_one) simp
  have hz: "\<exists>l \<in> set (split_newline ?z). \<exists>mm ss cc text.
      lrc_form l mm ss cc text \<and> \<not> minutes_convert mm"
    unfolding sz using fz nz by auto
  note t = parse_lrc_timestamps_lines [of ?s "''[01:08.04]b''" "''01''" "''08''" "''04''" "''b''"]
  note u = parse_lrc_timestamps_lines [of ?z "''[01:08.04]b''" "''01''" "''08''" "''04''" "''b''"]
  have r1: "lrc_entry ''[01:08.04]b'' = (Finite (2393944676924129 / 35184372088832), ''b'')"
    using t f v2 s by simp
  have "parse_lrc_timestamps (Some ?s) =
      Inr (map lrc_entry
        (filter (\<lambda>l. \<exists>mm ss cc text. lrc_form l mm ss cc text) (split_newline ?s)))"
    using t h by blast
  then have r2: "parse_lrc_timestamps (Some ?s) =
      Inr [(Finite (25 / 2), ''hello''), (Finite (2393944676924129 / 35184372088832), ''b'')]"
    unfolding k using e r1 by simp
  have "\<exists>e. parse_lrc_timestamps (Some ?z) = Inl e"
    using u hz by blast
  then have r3: "isl (parse_lrc_timestamps (Some ?z))"
    by auto
  show ?thesis
    by (intro conjI) (fact f r1 r2 fz nz r3)+
qed

text \<open>
  The claim as first stated (a list for every input string) fails on a line of the
  timestamp form whose minutes field is 309 nines: \<^verbatim>\<open>int\<close> converts it, and
  \<^verbatim>\<open>minutes * 60 + seconds\<close> raises OverflowError, since the integer is beyond the doubles.
\<close>

theorem parse_lrc_timestamps_overflow_counterexample:
  "lrc_form (''['' @ replicate 309 CHR ''9'' @ '':00.00]x'') (replicate 309 CHR ''9'')
      ''00'' ''00'' ''x''
   \<and> parse_lrc_timestamps (Some (''['' @ replicate 309 CHR ''9'' @ '':00.00]x''))
       = Inl OverflowError"
proof -
  let ?z = "''['' @ replicate 309 CHR ''9'' @ '':00.00]x''"
  have fz: "lrc_form ?z (replicate 309 CHR ''9'') ''00'' ''00'' ''x''"
    by (simp add: lrc_form_def digits_def is_digit_def list_all_iff)
  have m: "lrc_match ?z = Some (replicate 309 CHR ''9'', ''00'', ''00'', ''x'')"
    using fz by (rule lrc_form_match)
  have sz: "split_newline ?z = [?z]"
    by (rule split_newline_one) simp
  have "int (nat_of_digits (replicate 309 CHR ''9'') + 1) = int (10 ^ 309)"
    by (simp only: nat_of_nines)
  then have n: "int (nat_of_digits (replicate 309 CHR ''9'')) = 10 ^ 309 - 1"
    by simp
  have i: "py_int (replicate 309 CHR ''9'') = Inr (10 ^ 309 - 1)"
    using n by (simp add: py_int_def)
  have o: "int_add_float ((10 ^ 309 - 1) * 60) f = Inl OverflowError" for f
    by (simp add: int_add_float_def)
  have "parse_lines [?z] = Inl OverflowError"
    using m i o by simp
  then have "parse_lrc_timestamps (Some ?z) = Inl OverflowError"
    using sz by (simp add: parse_lrc_timestamps_def)
  then show ?thesis
    using fz by blast
qed

text \<open>
  The sum is a sum of doubles: for \<^verbatim>\<open>[01:08.04]\<close> it is the double below 68.04, not the
  double nearest to 68.04.
\<close>

lemma lrc_seconds_rounding:
  "lrc_seconds ''01'' ''08'' ''04'' = Finite (2393944676924129 / 35184372088832)
   \<and> double_of_real (1701 / 25) = Finite (4787889353848259 / 70368744177664)
   \<and> lrc_seconds ''01'' ''08'' ''04'' \<noteq> double_of_real (1701 / 25)"
proof -
  have a: "lrc_seconds ''01'' ''08'' ''04'' = Finite (2393944676924129 / 35184372088832)"
    by (simp add: lrc_seconds_def nat_of_digits_def digit_value_def float_of_decimal_def
        double_of_real_def quantum_def halvings.simps doublings.simps round_half_even_def)
  have b: "double_of_real (1701 / 25) = Finite (4787889353848259 / 70368744177664)"
    by (simp add: double_of_real_def quantum_def halvings.simps doublings.simps
        round_half_even_def)
  show ?thesis
    unfolding a b by simp
qed

subsection \<open>The command forwarding loop\<close>

lemma dirs_nonempty: "map_of dirs t = Some c \<Longrightarrow> c \<noteq> []"
  by (auto simp: dirs_def split: if_splits)

lemma dirs_photo: "map_of dirs ''PHOTO'' = None"
  by (simp add: dirs_def)

lemma init_serial_keeps:
  "serial_log (init_serial n st) = serial_log st
   \<and> last_cmd (init_serial n st) = last_cmd st
   \<and> photo_files (init_serial n st) = photo_files st
   \<and> last_frame_jpeg (init_serial n st) = last_frame_jpeg st"
  by (induction n) simp_all

lemma send_command_log:
  assumes "cmd \<noteq> []"
  shows "actuations (send_command_to_arduino cmd io st) = actuations st @ [hd cmd]
       \<and> photo_files (send_command_to_arduino cmd io st) = photo_files st"
proof -
  obtain c cs where c: "cmd = c # cs"
    using assms by (cases cmd) auto
  show ?thesis
    by (simp add: c send_command_to_arduino_def actuations_def Let_def init_serial_keeps)
qed

lemma save_photo_keeps:
  "actuations (save_photo io st) = actuations st
   \<and> last_cmd (save_photo io st) = last_cmd st
   \<and> ser_open (save_photo io st) = ser_open st"
  by (simp add: save_photo_def actuations_def split: option.splits)

lemma save_photo_no_frame:
  "last_frame_jpeg st = None \<Longrightarrow> save_photo io st = st"
  by (simp add: save_photo_def)

lemma pass_photo:
  assumes "response io = Response 200 text" and "token_of text = ''PHOTO''"
  shows "command_poll_pass io st = save_photo io st"
  using assms by (simp add: command_poll_pass_def)

lemma pass_movement:
  assumes "response io = Response 200 text" and "token_of text \<noteq> ''PHOTO''"
    and "map_of dirs (token_of text) = Some c"
  shows "command_poll_pass io st =
     (if Some c \<noteq> last_cmd st then (send_command_to_arduino c io st)\<lparr>last_cmd := Some c\<rparr>
      else st)"
  using assms by (simp add: command_poll_pass_def)

lemma pass_ignored:
  assumes "movement (CommandPoll io) = None" and "\<not> is_photo (CommandPoll io)"
  shows "command_poll_pass io st = st"
proof (cases "response io")
  case RequestFailed
  then show ?thesis by (simp add: command_poll_pass_def)
next
  case (Response status_code t)
  show ?thesis
  proof (cases "status_code = 200")
    case False
    with Response show ?thesis by (simp add: command_poll_pass_def)
  next
    case True
    with Response assms have "token_of t \<noteq> ''PHOTO''" "map_of dirs (token_of t) = None"
      by (simp_all add: movement_def is_photo_def polled_value_def)
    with Response True show ?thesis by (simp add: command_poll_pass_def)
  qed
qed

lemma step_no_movement:
  assumes "movement e = None"
  shows "actuations (agent_step e st) = actuations st \<and> last_cmd (agent_step e st) = last_cmd st"
proof (cases e)
  case (CameraFrame b)
  then show ?thesis by (simp add: actuations_def)
next
  case (CommandPoll io)
  show ?thesis
  proof (cases "is_photo e")
    case False
    then show ?thesis
      using assms CommandPoll pass_ignored [of io st] by simp
  next
    case True
    then obtain t where "response io = Response 200 t" "token_of t = ''PHOTO''"
      using CommandPoll
      by (auto simp: is_photo_def polled_value_def split: poll_result.splits option.splits if_splits)
    then have "command_poll_pass io st = save_photo io st"
      by (rule pass_photo)
    then show ?thesis
      using CommandPoll save_photo_keeps [of io st] by simp
  qed
qed

lemma step_movement:
  assumes "movement e = Some c"
  shows "actuations (agent_step e st) = actuations st @ map hd (debounce (last_cmd st) [c])
       \<and> last_cmd (agent_step e st) = Some c"
proof -
  obtain io t where e: "e = CommandPoll io" and r: "response io = Response 200 t"
    and np: "token_of t \<noteq> ''PHOTO''" and d: "map_of dirs (token_of t) = Some c"
    using assms
    by (auto simp: movement_def polled_value_def
        split: agent_event.splits poll_result.splits option.splits if_splits)
  have ne: "c \<noteq> []"
    using d by (rule dirs_nonempty)
  have p: "command_poll_pass io st =
     (if Some c \<noteq> last_cmd st then (send_command_to_arduino c io st)\<lparr>last_cmd := Some c\<rparr>
      else st)"
    using r np d by (rule pass_movement)
  show ?thesis
  proof (cases "Some c = last_cmd st")
    case True
    then show ?thesis using e p by simp
  next
    case False
    then show ?thesis
      using e p send_command_log [OF ne, of io st] by (simp add: actuations_def)
  qed
qed

lemma agent_run_actuations:
  "actuations (agent_run es st) =
     actuations st @ map hd (debounce (last_cmd st) (List.map_filter movement es))"
proof (induction es arbitrary: st)
  case Nil
  show ?case by simp
next
  case (Cons e es)
  show ?case
  proof (cases "movement e")
    case None
    then show ?thesis
      using step_no_movement [OF None, of st] by (simp add: Cons.IH)
  next
    case (Some c)
    then show ?thesis
      using step_movement [OF Some, of st] by (simp add: Cons.IH)
  qed
qed

lemma debounce_remdups_adj: "remdups_adj (c # cs) = c # debounce (Some c) cs"
  by (induction cs arbitrary: c) simp_all

lemma debounce_None: "debounce None cs = remdups_adj cs"
  by (cases cs) (simp_all add: debounce_remdups_adj)

lemma dirs_single: "map_of dirs t = Some c \<Longrightarrow> c = [hd c]"
  by (auto simp: dirs_def split: if_splits)

lemma movement_single: "movement e = Some c \<Longrightarrow> c = [hd c]"
  by (auto simp: movement_def dirs_single split: option.splits if_splits)

lemma photo_no_movement: "is_photo e \<Longrightarrow> movement e = None"
  by (auto simp: is_photo_def movement_def split: option.splits)

lemma map_filter_movement_single:
  "\<forall>c \<in> set (List.map_filter movement es). c = [hd c]"
proof (induction es)
  case Nil
  show ?case by simp
next
  case (Cons e es)
  show ?case
  proof (cases "movement e")
    case None
    then show ?thesis using Cons.IH by simp
  next
    case (Some c)
    then show ?thesis using Cons.IH movement_single [OF Some] by simp
  qed
qed

lemma hd_inj_on_singletons:
  assumes "\<forall>c \<in> set cs. c = [hd c]"
  shows "inj_on hd (set cs)"
proof (rule inj_onI)
  fix x y assume x: "x \<in> set cs" and y: "y \<in> set cs" and h: "hd x = hd y"
  have "x = [hd x]" using assms x by blast
  moreover have "y = [hd y]" using assms y by blast
  ultimately show "x = y" using h by metis
qed

lemma debounce_same:
  assumes "\<forall>e \<in> set es. is_photo e \<or> movement e = Some c"
  shows "debounce (Some c) (List.map_filter movement es) = []
       \<and> debounce None (List.map_filter movement es) =
           (if \<exists>e \<in> set es. movement e = Some c then [c] else [])"
  using assms
proof (induction es)
  case Nil
  show ?case by simp
next
  case (Cons e es)
  then have ih: "debounce (Some c) (List.map_filter movement es) = []"
    "debounce None (List.map_filter movement es) =
       (if \<exists>e \<in> set es. movement e = Some c then [c] else [])"
    by simp_all
  show ?case
  proof (cases "movement e = Some c")
    case True
    then show ?thesis using ih by simp
  next
    case False
    then have "is_photo e" using Cons.prems by simp
    then have "movement e = None" by (rule photo_no_movement)
    then show ?thesis using ih by simp
  qed
qed

text \<open>
  C2 (as amended). For every finite sequence of events the loop writes to the serial port
  exactly once per maximal run of identical consecutive actuator commands, where the
  commands are those the loop maps the polled values to (\<open>dirs\<close>), and polls that give no
  command (a failed request, a status other than 200, PHOTO, an unknown token) are skipped
  and do not end a run; however many polls a run has. No byte is sent twice in a row.
\<close>

theorem debounced_forwarding:
  "actuations (command_poll_loop es st) =
     actuations st @ map hd (remdups_adj (List.map_filter movement es))
   \<and> length (actuations (command_poll_loop es st)) =
       length (actuations st) + length (remdups_adj (List.map_filter movement es))
   \<and> distinct_adj (map hd (remdups_adj (List.map_filter movement es)))"
proof -
  let ?cs = "List.map_filter movement es"
  have "actuations (command_poll_loop es st) =
      actuations (st\<lparr>last_cmd := None\<rparr>) @ map hd (debounce None ?cs)"
    unfolding command_poll_loop_def using agent_run_actuations [of es "st\<lparr>last_cmd := None\<rparr>"]
    by simp
  then have a: "actuations (command_poll_loop es st) = actuations st @ map hd (remdups_adj ?cs)"
    by (simp add: debounce_None actuations_def)
  have "\<forall>c \<in> set (remdups_adj ?cs). c = [hd c]"
    using map_filter_movement_single [of es] by simp
  then have "inj_on hd (set (remdups_adj ?cs))"
    by (rule hd_inj_on_singletons)
  then have d: "distinct_adj (map hd (remdups_adj ?cs))"
    by (simp add: distinct_adj_map_iff)
  show ?thesis
    using a d by simp
qed

text \<open>
  C2 as stated fails on the polled values themselves. The polls FORWARD, PHOTO, FORWARD are
  three maximal runs of identical values but give one write; and the polls NOT_MOVING,
  \<open>Not Moving\<close> (what the hub answers before and after the key X) are two runs but give
  one write.
\<close>

theorem debounced_forwarding_polled_counterexample:
  "List.map_filter polled_value (map polled [''FORWARD'', ''PHOTO'', ''FORWARD''])
     = [''FORWARD'', ''PHOTO'', ''FORWARD'']
   \<and> length (remdups_adj [''FORWARD'', ''PHOTO'', ''FORWARD'']) = 3
   \<and> actuations (command_poll_loop (map polled [''FORWARD'', ''PHOTO'', ''FORWARD'']) rpi_init)
       = ''W''
   \<and> length (remdups_adj [''NOT_MOVING'', ''Not Moving'']) = 2
   \<and> actuations (command_poll_loop (map polled [''NOT_MOVING'', ''Not Moving'']) rpi_init)
       = ''X''"
  by (simp add: polled_value_def polled_def command_poll_loop_def
      command_poll_pass_def token_of_def strip_def is_space_def upper_def upper_char_def
      dirs_def send_command_to_arduino_def save_photo_def rpi_init_def actuations_def)

text \<open>
  C10. A PHOTO poll writes nothing to the serial port and leaves \<open>last_cmd\<close> unchanged, and
  when no frame has been captured yet it writes no file either (it changes nothing at
  all). Hence a sequence of polls that are each PHOTO or one and the same movement command,
  with at least one of the latter, gives exactly one write.
\<close>

theorem photo_not_forwarded:
  "(is_photo e \<longrightarrow>
      actuations (agent_step e st) = actuations st
      \<and> last_cmd (agent_step e st) = last_cmd st
      \<and> (last_frame_jpeg st = None \<longrightarrow>
           photo_files (agent_step e st) = photo_files st \<and> agent_step e st = st))
   \<and> ((\<forall>e \<in> set es. is_photo e \<or> movement e = Some c) \<and> (\<exists>e \<in> set es. movement e = Some c) \<longrightarrow>
        actuations (command_poll_loop es st) = actuations st @ [hd c])"
proof -
  have one: "actuations (agent_step e st) = actuations st
      \<and> last_cmd (agent_step e st) = last_cmd st
      \<and> (last_frame_jpeg st = None \<longrightarrow>
           photo_files (agent_step e st) = photo_files st \<and> agent_step e st = st)"
    if p: "is_photo e"
  proof -
    obtain io t where e: "e = CommandPoll io" and r: "response io = Response 200 t"
      and t: "token_of t = ''PHOTO''"
      using p
      by (auto simp: is_photo_def polled_value_def
          split: agent_event.splits poll_result.splits option.splits if_splits)
    have s: "agent_step e st = save_photo io st"
      using e pass_photo [OF r t, of st] by simp
    show ?thesis
      using s save_photo_keeps [of io st] save_photo_no_frame [of st io] by simp
  qed
  have run: "actuations (command_poll_loop es st) = actuations st @ [hd c]"
    if a: "\<forall>e \<in> set es. is_photo e \<or> movement e = Some c" and b: "\<exists>e \<in> set es. movement e = Some c"
  proof -
    have "debounce None (List.map_filter movement es) = [c]"
      using debounce_same [OF a] b by simp
    then show ?thesis
      unfolding command_poll_loop_def
      using agent_run_actuations [of es "st\<lparr>last_cmd := None\<rparr>"]
      by (simp add: actuations_def)
  qed
  show ?thesis
    using one run by blast
qed

theorem photo_not_forwarded_witness:
  "is_photo (polled ''PHOTO'') \<and> last_frame_jpeg rpi_init = None
   \<and> agent_step (polled ''PHOTO'') rpi_init = rpi_init
   \<and> movement (polled ''FORWARD'') = Some ''W''
   \<and> actuations (command_poll_loop (map polled [''FORWARD'', ''PHOTO'', ''PHOTO'', ''FORWARD'']) rpi_init)
       = ''W''"
proof -
  have tp: "token_of ''PHOTO'' = ''PHOTO''" and tf: "token_of ''FORWARD'' = ''FORWARD''"
    by (simp_all add: token_of_def strip_def is_space_def upper_def upper_char_def)
  have p: "is_photo (polled ''PHOTO'')"
    by (simp add: is_photo_def polled_value_def polled_def tp)
  have m: "movement (polled ''FORWARD'') = Some ''W''"
    by (simp add: movement_def polled_value_def polled_def tf dirs_def)
  have n: "last_frame_jpeg rpi_init = None" "actuations rpi_init = []"
    by (simp_all add: rpi_init_def actuations_def)
  show ?thesis
    using p m n
      photo_not_forwarded [of "polled ''PHOTO''" rpi_init
        "map polled [''FORWARD'', ''PHOTO'', ''PHOTO'', ''FORWARD'']" "''W''"]
    by simp
qed

subsection \<open>The lyric scheduler\<close>

lemma wait_until_ge: "start_time + timestamp \<le> wait_until start_time timestamp now"
proof (induction start_time timestamp now rule: wait_until.induct)
  case (1 start_time timestamp now)
  show ?case
  proof (cases "now - start_time < timestamp")
    case True
    then show ?thesis
      using "1.IH" by (subst wait_until.simps) simp
  next
    case False
    then show ?thesis
      by (subst wait_until.simps) simp
  qed
qed

lemma stream_lines_posts:
  "map fst ls = map Finite offsets \<Longrightarrow>
   \<exists>w' ps. stream_lines start_time ls env w = Some w'
        \<and> posts w' = posts w @ ps
        \<and> map snd ps = map lyric_body ls
        \<and> list_all2 (\<lambda>p off. start_time + off \<le> fst p) ps offsets
        \<and> playback_started_at w' = playback_started_at w"
proof (induction ls arbitrary: w offsets)
  case Nil
  then show ?case by simp
next
  case (Cons l ls)
  obtain timestamp line where l: "l = (timestamp, line)"
    by (cases l)
  obtain off offs where o: "offsets = off # offs" "timestamp = Finite off"
    "map fst ls = map Finite offs"
    using Cons.prems l by (cases offsets) auto
  define w1 where "w1 = w\<lparr>clock := wait_until start_time off (clock w)\<rparr>"
  define w2 where "w2 = send_transcript_to_server (''10 '' @ line) env w1"
  have p2: "posts w2 = posts w @ [(wait_until start_time off (clock w), ''10 '' @ line)]"
    "playback_started_at w2 = playback_started_at w"
    by (simp_all add: w2_def w1_def send_transcript_to_server_def)
  obtain w' ps where ps: "stream_lines start_time ls env w2 = Some w'"
    "posts w' = posts w2 @ ps"
    "map snd ps = map lyric_body ls"
    "list_all2 (\<lambda>p off. start_time + off \<le> fst p) ps offs"
    "playback_started_at w' = playback_started_at w2"
    using Cons.IH [OF o(3), of w2] by blast
  have s: "stream_lines start_time (l # ls) env w = stream_lines start_time ls env w2"
    by (simp add: l o(2) w2_def w1_def wait_for_def Let_def)
  let ?p = "(wait_until start_time off (clock w), ''10 '' @ line)"
  have "stream_lines start_time (l # ls) env w = Some w'"
    using s ps(1) by simp
  moreover have "posts w' = posts w @ (?p # ps)"
    using ps(2) p2(1) by simp
  moreover have "map snd (?p # ps) = map lyric_body (l # ls)"
    using ps(3) by (simp add: l lyric_body_def)
  moreover have "list_all2 (\<lambda>p off. start_time + off \<le> fst p) (?p # ps) offsets"
    using ps(4) wait_until_ge [of start_time off "clock w"] by (simp add: o(1))
  moreover have "playback_started_at w' = playback_started_at w"
    using ps(5) p2(2) by simp
  ultimately show ?case by blast
qed

lemma music_flow_at_playback:
  assumes "chat_with_gpt env = Some reply" and "reply \<noteq> []"
    and "synced_lyrics env = Some lrc" and "lrc \<noteq> []"
    and "parse_lrc_timestamps (Some lrc) = Inr lines" and "lines \<noteq> []"
  shows "handle_music_spotify_flow env w =
     (case play_song env w of
        (Inl e, w1) \<Rightarrow>
          Returns (send_transcript_to_server ''5 Error starting Spotify playback'' env w1)
      | (Inr _, w1) \<Rightarrow>
          (case stream_lines (clock w) lines env w1 of
             None \<Rightarrow> NeverReturns
           | Some w2 \<Rightarrow> Returns w2))"
  using assms by (simp add: handle_music_spotify_flow_def Let_def)

text \<open>
  C4 (as amended). The anchor instant is the clock reading taken immediately before the
  playback actuator is called. When the call raises, the schedule is aborted: the only POST
  is the report \<open>5 Error starting Spotify playback\<close>, made when the call has returned, and
  no lyric line is published. When the call returns with playback started and the offsets
  of the lines are finite, the flow returns, each line is posted exactly once, in sequence
  order whatever the offsets are, and each no earlier than anchor + offset.
\<close>

theorem lyric_schedule:
  assumes "chat_with_gpt env = Some reply" and "reply \<noteq> []"
    and "synced_lyrics env = Some lrc" and "lrc \<noteq> []"
    and "parse_lrc_timestamps (Some lrc) = Inr lines" and "lines \<noteq> []"
  shows "(spotify env = SpotifyRaises \<longrightarrow>
            (\<exists>w'. handle_music_spotify_flow env w = Returns w'
               \<and> posts w' =
                   posts w @ [(clock w + play_seconds env, ''5 Error starting Spotify playback'')]))
       \<and> (spotify env = PlaybackStarted \<and> map fst lines = map Finite offsets \<longrightarrow>
            (\<exists>w' ps. handle_music_spotify_flow env w = Returns w'
               \<and> playback_started_at w' = Some (clock w + play_seconds env)
               \<and> posts w' = posts w @ ps
               \<and> map snd ps = map lyric_body lines
               \<and> list_all2 (\<lambda>p off. clock w + off \<le> fst p) ps offsets))"
proof -
  note flow = music_flow_at_playback [OF assms, of w]
  have raises: "\<exists>w'. handle_music_spotify_flow env w = Returns w'
      \<and> posts w' =
          posts w @ [(clock w + play_seconds env, ''5 Error starting Spotify playback'')]"
    if "spotify env = SpotifyRaises"
    using that flow by (simp add: play_song_def send_transcript_to_server_def)
  have started: "\<exists>w' ps. handle_music_spotify_flow env w = Returns w'
      \<and> playback_started_at w' = Some (clock w + play_seconds env)
      \<and> posts w' = posts w @ ps
      \<and> map snd ps = map lyric_body lines
      \<and> list_all2 (\<lambda>p off. clock w + off \<le> fst p) ps offsets"
    if p: "spotify env = PlaybackStarted" and f: "map fst lines = map Finite offsets"
  proof -
    define w1 where "w1 = w\<lparr>clock := clock w + play_seconds env,
      playback_started_at := Some (clock w + play_seconds env)\<rparr>"
    have w1: "posts w1 = posts w" "playback_started_at w1 = Some (clock w + play_seconds env)"
      by (simp_all add: w1_def)
    obtain w' ps where s: "stream_lines (clock w) lines env w1 = Some w'"
      "posts w' = posts w1 @ ps"
      "map snd ps = map lyric_body lines"
      "list_all2 (\<lambda>p off. clock w + off \<le> fst p) ps offsets"
      "playback_started_at w' = playback_started_at w1"
      using stream_lines_posts [OF f, of "clock w" env w1] by blast
    have "handle_music_spotify_flow env w = Returns w'"
      using p flow s(1) by (simp add: play_song_def w1_def)
    then show ?thesis
      using s w1 by auto
  qed
  show ?thesis
    using raises started by blast
qed

theorem lyric_schedule_witness:
  "parse_lrc_timestamps (Some ''[00:00.00]a\<newline>[00:00.03]b\<newline>[00:00.01]c'')
     = Inr [(Finite 0, ''a''), (Finite (1080863910568919 / 36028797018963968), ''b''),
            (Finite (5764607523034235 / 576460752303423488), ''c'')]
   \<and> handle_music_spotify_flow
     (env_example\<lparr>synced_lyrics := Some ''[00:00.00]a\<newline>[00:00.03]b\<newline>[00:00.01]c'',
                  play_seconds := 0\<rparr>) world_init
     = Returns \<lparr>clock = 3 / 10,
        posts = [(0, ''10 a''), (1 / 10, ''10 b''), (1 / 5, ''10 c'')],
        playback_started_at = Some 0\<rparr>
   \<and> handle_music_spotify_flow (env_example\<lparr>spotify := SpotifyRaises\<rparr>) world_init
       = Returns \<lparr>clock = 31 / 10, posts = [(3, ''5 Error starting Spotify playback'')],
           playback_started_at = None\<rparr>"
proof -
  note ev = parse_lrc_timestamps_def lrc_match_def is_digit_def nat_of_digits_def
    float_of_decimal_def digit_value_def strip_def is_space_def py_int_def int_add_float_def
    double_of_real_def quantum_def halvings.simps doublings.simps round_half_even_def
  let ?lrc = "''[00:00.00]a\<newline>[00:00.03]b\<newline>[00:00.01]c''"
  let ?lines = "[(Finite 0, ''a''), (Finite (1080863910568919 / 36028797018963968), ''b''),
            (Finite (5764607523034235 / 576460752303423488), ''c'')]"
  let ?env = "env_example\<lparr>synced_lyrics := Some ?lrc, play_seconds := 0\<rparr>"
  have l1: "parse_lrc_timestamps (Some ?lrc) = Inr ?lines"
    by (simp add: ev)
  have l2: "parse_lrc_timestamps (Some ''[00:01.00]a'') = Inr [(Finite 1, ''a'')]"
    by (simp add: ev)
  have a: "handle_music_spotify_flow ?env world_init
     = Returns \<lparr>clock = 3 / 10,
        posts = [(0, ''10 a''), (1 / 10, ''10 b''), (1 / 5, ''10 c'')],
        playback_started_at = Some 0\<rparr>"
    by (simp add: handle_music_spotify_flow_def env_example_def world_init_def l1 play_song_def
        send_transcript_to_server_def wait_for_def wait_until.simps strip_def is_space_def)
  have b: "handle_music_spotify_flow (env_example\<lparr>spotify := SpotifyRaises\<rparr>) world_init
       = Returns \<lparr>clock = 31 / 10, posts = [(3, ''5 Error starting Spotify playback'')],
           playback_started_at = None\<rparr>"
    by (simp add: handle_music_spotify_flow_def env_example_def world_init_def l2 play_song_def
        send_transcript_to_server_def strip_def is_space_def)
  have "\<exists>w' ps. handle_music_spotify_flow ?env world_init = Returns w'
      \<and> playback_started_at w' = Some (clock world_init + play_seconds ?env)
      \<and> posts w' = posts world_init @ ps
      \<and> map snd ps = map lyric_body ?lines
      \<and> list_all2 (\<lambda>p off. clock world_init + off \<le> fst p) ps
           [0, 1080863910568919 / 36028797018963968, 5764607523034235 / 576460752303423488]"
    using l1
      lyric_schedule [of ?env "''Imagine''" ?lrc ?lines world_init
        "[0, 1080863910568919 / 36028797018963968, 5764607523034235 / 576460752303423488]"]
    by (simp add: env_example_def)
  moreover have "\<exists>w'. handle_music_spotify_flow (env_example\<lparr>spotify := SpotifyRaises\<rparr>) world_init
        = Returns w'
      \<and> posts w' = posts world_init @
          [(clock world_init + play_seconds (env_example\<lparr>spotify := SpotifyRaises\<rparr>),
            ''5 Error starting Spotify playback'')]"
    using l2
      lyric_schedule [of "env_example\<lparr>spotify := SpotifyRaises\<rparr>" "''Imagine''"
        "''[00:01.00]a''" "[(Finite 1, ''a'')]" world_init "[1]"]
    by (simp add: env_example_def)
  ultimately show ?thesis
    using l1 a b by simp
qed

text \<open>
  C4 as stated fails on the anchor. With one line at offset 1 s and a playback call that
  takes 3 s, playback has started at clock reading 3, but the anchor was read at 0, before
  the call: the line is posted at 3, earlier than the start of playback + the offset - a
  jitter tolerance of 50 ms.
\<close>

theorem lyric_anchor_counterexample:
  "parse_lrc_timestamps (synced_lyrics env_example) = Inr [(Finite 1, ''a'')]
   \<and> handle_music_spotify_flow env_example world_init
       = Returns \<lparr>clock = 31 / 10, posts = [(3, ''10 a'')], playback_started_at = Some 3\<rparr>
   \<and> (3 :: real) < 3 + 1 - 5 / 100"
proof -
  have l: "parse_lrc_timestamps (Some ''[00:01.00]a'') = Inr [(Finite 1, ''a'')]"
    by (simp add: parse_lrc_timestamps_def lrc_match_def is_digit_def nat_of_digits_def
        float_of_decimal_def digit_value_def strip_def is_space_def py_int_def int_add_float_def
        double_of_real_def quantum_def halvings.simps doublings.simps round_half_even_def)
  have w: "wait_until 0 1 3 = 3"
    by (simp add: wait_until.simps)
  show ?thesis
    by (simp add: handle_music_spotify_flow_def env_example_def world_init_def l w play_song_def
        send_transcript_to_server_def wait_for_def strip_def is_space_def)
qed

text \<open>
  For the record: when \<^verbatim>\<open>sp.start_playback\<close> fails, \<^verbatim>\<open>play_song\<close> catches the exception
  and returns, so the agent sees no failure: it streams the lines and posts no report.
\<close>

lemma lyric_schedule_swallowed_failure:
  "handle_music_spotify_flow (env_example\<lparr>spotify := StartPlaybackFails\<rparr>) world_init
     = Returns \<lparr>clock = 31 / 10, posts = [(3, ''10 a'')], playback_started_at = None\<rparr>"
proof -
  have l: "parse_lrc_timestamps (Some ''[00:01.00]a'') = Inr [(Finite 1, ''a'')]"
    by (simp add: parse_lrc_timestamps_def lrc_match_def is_digit_def nat_of_digits_def
        float_of_decimal_def digit_value_def strip_def is_space_def py_int_def int_add_float_def
        double_of_real_def quantum_def halvings.simps doublings.simps round_half_even_def)
  have w: "wait_until 0 1 3 = 3"
    by (simp add: wait_until.simps)
  show ?thesis
    by (simp add: handle_music_spotify_flow_def env_example_def world_init_def l w play_song_def
        send_transcript_to_server_def wait_for_def strip_def is_space_def)
qed

text \<open>
  For the record: against an infinite offset the wait never ends, so the flow does not
  return and the lines from there on are never posted.
\<close>

lemma stream_lines_infinite_offset:
  "stream_lines start_time ((PosInf, line) # rest) env w = None"
  by (simp add: wait_for_def)

subsection \<open>The non-music branch of the audio pipeline\<close>

text \<open>
  C9. In the branch of \<open>process_audio_file\<close> taken for a non-empty transcript without a
  music keyword, the report after \<open>handle_chatgpt_tts_flow\<close> reads \<open>song_name\<close>, which the
  function never assigns and the module does not bind: whenever
  \<open>handle_chatgpt_tts_flow\<close> returns, the branch raises NameError for \<open>song_name\<close> and
  posts no report. (When \<open>handle_chatgpt_tts_flow\<close> itself raises, it is the
  UnboundLocalError of its own \<open>audio_duration\<close>.) The branch never ends normally.
\<close>

theorem non_music_branch_name_error:
  assumes "transcribe_audio env = Some transcribed_text" and "transcribed_text \<noteq> []"
    and "\<not> list_ex (\<lambda>keyword. contains keyword (lower transcribed_text))
             [''music'', ''spotify'', ''song'']"
  shows "''song_name'' \<notin> set rpi_module_names
       \<and> (\<forall>w1. handle_chatgpt_tts_flow env w = Inr w1 \<longrightarrow>
              process_audio_file env w = Raises (NameError ''song_name''))
       \<and> (\<forall>e. handle_chatgpt_tts_flow env w = Inl e \<longrightarrow>
              e = UnboundLocalError ''audio_duration'' \<and> process_audio_file env w = Raises e)
       \<and> (\<exists>e. process_audio_file env w = Raises e)"
proof -
  have n: "''song_name'' \<notin> set rpi_module_names"
    by (simp add: rpi_module_names_def)
  have p: "process_audio_file env w =
      (case handle_chatgpt_tts_flow env w of
         Inl e \<Rightarrow> Raises e
       | Inr w1 \<Rightarrow> Raises (NameError ''song_name''))"
    using assms n by (simp add: process_audio_file_def Let_def split: sum.splits)
  have u: "e = UnboundLocalError ''audio_duration''" if "handle_chatgpt_tts_flow env w = Inl e" for e
    using that by (auto simp: handle_chatgpt_tts_flow_def Let_def split: option.splits if_splits)
  show ?thesis
    using n p u by (cases "handle_chatgpt_tts_flow env w") auto
qed

theorem non_music_branch_name_error_witness:
  "transcribe_audio (env_example\<lparr>transcribe_audio := Some ''hello there''\<rparr>) = Some ''hello there''
   \<and> handle_chatgpt_tts_flow (env_example\<lparr>transcribe_audio := Some ''hello there''\<rparr>) world_init
       = Inr \<lparr>clock = 1 / 10, posts = [(0, ''2.5 Imagine'')], playback_started_at = None\<rparr>
   \<and> process_audio_file (env_example\<lparr>transcribe_audio := Some ''hello there''\<rparr>) world_init
       = Raises (NameError ''song_name'')"
proof -
  have k: "\<not> list_ex (\<lambda>keyword. contains keyword (lower ''hello there''))
             [''music'', ''spotify'', ''song'']"
    by (simp add: lower_def lower_char_def)
  have h: "handle_chatgpt_tts_flow (env_example\<lparr>transcribe_audio := Some ''hello there''\<rparr>) world_init
       = Inr \<lparr>clock = 1 / 10, posts = [(0, ''2.5 Imagine'')], playback_started_at = None\<rparr>"
    by (simp add: handle_chatgpt_tts_flow_def env_example_def world_init_def
        send_transcript_to_server_def)
  show ?thesis
    using k h
      non_music_branch_name_error [of "env_example\<lparr>transcribe_audio := Some ''hello there''\<rparr>"
        "''hello there''" world_init]
    by (simp add: env_example_def)
qed

end
